theory Spec2Isabelle
  imports Complex_Main "HOL-Library.Multiset" "HOL-Library.Log_Nat"
begin

section \<open>Session records\<close>

text \<open>
  A session is the plain object that the game screens store and that the progress page reads
  back as \<^verbatim>\<open>any\<close>. Every field may be absent, so every field is an option. The counts are the
  integers the game screens produce; \<^verbatim>\<open>totalTime\<close> is a whole number of seconds
  (\<^verbatim>\<open>Math.round((Date.now() - gameStartTime) / 1000)\<close>).

  A time stamp arrives either as a number of epoch milliseconds (\<^verbatim>\<open>Date.now()\<close>) or as a
  string (\<^verbatim>\<open>new Date().toISOString()\<close>). A string is represented by what \<^verbatim>\<open>new Date\<close> makes of
  it: the instant it denotes, or nothing when it cannot be parsed. The empty string, which is
  falsy, is represented as an absent field.
\<close>

datatype rawtime = EpochMs int | IsoString int | BadString

record session =
  category :: "string option"
  totalQuestions :: "int option"
  correctAnswers :: "int option"
  skipped :: "int option"
  totalTime :: "int option"
  timestamp :: "rawtime option"
  createdAt :: "rawtime option"

text \<open>\<^verbatim>\<open>x || 0\<close> on a numeric field: an absent field and the number 0 both give 0.\<close>

definition orZero :: "int option \<Rightarrow> int" where
  "orZero v = (case v of None \<Rightarrow> 0 | Some n \<Rightarrow> n)"

section \<open>Numbers\<close>

text \<open>
  A number of the code is a double. A double is represented by the rational it stands for: an
  integer of at most 53 bits times a power of 2. The exponent range is not limited, so there is
  neither overflow nor a subnormal number; quotients and products of integers below \<open>2^53\<close>
  stay far inside the range of the doubles. NaN and the infinities are not represented.
\<close>

text \<open>The nearest integer, a tie going to the even one.\<close>

definition roundHalfEven :: "rat \<Rightarrow> int" where
  "roundHalfEven x =
     (let f = \<lfloor>x\<rfloor>; d = x - of_int f
      in if d < 1 / 2 then f else if 1 / 2 < d then f + 1 else if even f then f else f + 1)"

text \<open>
  The binary exponent of a rational other than 0, the \<open>e\<close> with \<open>2^e \<le> \<bar>x\<bar> < 2^(e + 1)\<close>,
  found from the bit lengths of the numerator and the denominator.
\<close>

definition exponentOf :: "rat \<Rightarrow> int" where
  "exponentOf x =
     (let (n, d) = quotient_of \<bar>x\<bar>;
          k = bitlen n - bitlen d
      in if 2 powi k \<le> \<bar>x\<bar> then k else k - 1)"

text \<open>
  The double nearest to a rational, a tie going to the even significand: the rounding of
  every arithmetic operation on doubles.
\<close>

definition toDouble :: "rat \<Rightarrow> rat" where
  "toDouble x =
     (if x = 0 then 0
      else
        let ulp = 2 powi (exponentOf x - 52)
        in of_int (roundHalfEven (x / ulp)) * ulp)"

text \<open>\<^verbatim>\<open>x / y\<close> and \<^verbatim>\<open>x * y\<close> on doubles.\<close>

definition divideDouble :: "rat \<Rightarrow> rat \<Rightarrow> rat" where
  "divideDouble x y = toDouble (x / y)"

definition timesDouble :: "rat \<Rightarrow> rat \<Rightarrow> rat" where
  "timesDouble x y = toDouble (x * y)"

text \<open>
  \<^verbatim>\<open>Math.round\<close> of a double: the nearest integer, a tie going up. It is computed exactly.
\<close>

definition Math_round :: "rat \<Rightarrow> int" where
  "Math_round x = \<lfloor>x + 1 / 2\<rfloor>"

section \<open>Aggregation\<close>

record stats =
  accuracy :: int
  avgTimePerCard :: int
  totalCards :: int
  skippedCards :: int

text \<open>\<^verbatim>\<open>sessions.reduce((sum, s) => sum + (f(s) || 0), 0)\<close>\<close>

definition reduceSum :: "(session \<Rightarrow> int option) \<Rightarrow> session list \<Rightarrow> int" where
  "reduceSum f sessions = foldl (\<lambda>sum s. sum + orZero (f s)) 0 sessions"

text \<open>
  \<^verbatim>\<open>calculateOverallStats\<close>; the value returned is the one assigned to \<^verbatim>\<open>this.overallStats\<close>.
  The sums are those of integers and are exact, as they are in doubles below \<open>2^53\<close>.
\<close>

definition calculateOverallStats :: "session list \<Rightarrow> stats" where
  "calculateOverallStats sessions =
     (if length sessions = 0 then
        \<lparr>accuracy = 0, avgTimePerCard = 0, totalCards = 0, skippedCards = 0\<rparr>
      else
        let totalQuestions' = reduceSum totalQuestions sessions;
            totalCorrect = reduceSum correctAnswers sessions;
            totalTime' = reduceSum totalTime sessions;
            totalSkipped = reduceSum skipped sessions
        in \<lparr>accuracy =
              (if totalQuestions' > 0
               then Math_round (timesDouble (divideDouble (of_int totalCorrect)
                                                            (of_int totalQuestions')) 100)
               else 0),
            avgTimePerCard =
              (if totalQuestions' > 0
               then Math_round (divideDouble (of_int totalTime') (of_int totalQuestions'))
               else 0),
            totalCards = totalQuestions',
            skippedCards = totalSkipped\<rparr>)"

section \<open>Dates\<close>

text \<open>
  A \<^verbatim>\<open>Date\<close> is its time value, the milliseconds since the epoch, or nothing for an invalid
  date (the time value NaN). The range limit of time values is not modelled.
\<close>

type_synonym jsdate = "int option"

definition new_Date :: "rawtime \<Rightarrow> jsdate" where
  "new_Date v = (case v of EpochMs n \<Rightarrow> Some n | IsoString t \<Rightarrow> Some t | BadString \<Rightarrow> None)"

text \<open>Of the values a time stamp can take, only the number 0 is falsy.\<close>

definition isTruthy :: "rawtime \<Rightarrow> bool" where
  "isTruthy v = (v \<noteq> EpochMs 0)"

text \<open>\<^verbatim>\<open>session.timestamp || session.createdAt || 0\<close>\<close>

definition timestampOrCreatedAt :: "session \<Rightarrow> rawtime" where
  "timestampOrCreatedAt s =
     (let created = (case createdAt s of
                       None \<Rightarrow> EpochMs 0
                     | Some c \<Rightarrow> if isTruthy c then c else EpochMs 0)
      in case timestamp s of
           None \<Rightarrow> created
         | Some t \<Rightarrow> if isTruthy t then t else created)"

text \<open>\<^verbatim>\<open>new Date(session.timestamp || session.createdAt || 0)\<close>\<close>

definition sessionDate :: "session \<Rightarrow> jsdate" where
  "sessionDate s = new_Date (timestampOrCreatedAt s)"

text \<open>
  The relational operators on two dates compare the time values; a comparison with an invalid
  date is false.
\<close>

definition date_lt :: "jsdate \<Rightarrow> jsdate \<Rightarrow> bool" where
  "date_lt a b = (case (a, b) of (Some x, Some y) \<Rightarrow> x < y | _ \<Rightarrow> False)"

definition date_le :: "jsdate \<Rightarrow> jsdate \<Rightarrow> bool" where
  "date_le a b = (case (a, b) of (Some x, Some y) \<Rightarrow> x \<le> y | _ \<Rightarrow> False)"

definition date_ge :: "jsdate \<Rightarrow> jsdate \<Rightarrow> bool" where
  "date_ge a b = (case (a, b) of (Some x, Some y) \<Rightarrow> x \<ge> y | _ \<Rightarrow> False)"

subsection \<open>The calendar of ECMAScript\<close>

text \<open>
  Local time is the time value plus a fixed offset \<open>tz\<close> in milliseconds (28800000 for the
  GMT+8 of the source's comments); daylight saving is not modelled. Days are numbered from
  1 January 1970, months from 0.
\<close>

definition msPerDay :: int where
  "msPerDay = 86400000"

definition Day :: "int \<Rightarrow> int" where
  "Day t = t div msPerDay"

definition LocalTime :: "int \<Rightarrow> int \<Rightarrow> int" where
  "LocalTime tz t = t + tz"

definition UTC :: "int \<Rightarrow> int \<Rightarrow> int" where
  "UTC tz t = t - tz"

definition DayFromYear :: "int \<Rightarrow> int" where
  "DayFromYear y =
     365 * (y - 1970) + (y - 1969) div 4 - (y - 1901) div 100 + (y - 1601) div 400"

definition InLeapYear :: "int \<Rightarrow> bool" where
  "InLeapYear y = (y mod 4 = 0 \<and> (y mod 100 \<noteq> 0 \<or> y mod 400 = 0))"

text \<open>The year of a day number, computed from its position in the 400-year cycle.\<close>

definition YearFromDay :: "int \<Rightarrow> int" where
  "YearFromDay d =
     (let z = d + 719468;
          era = z div 146097;
          doe = z mod 146097;
          yoe = (doe - doe div 1460 + doe div 36524 - doe div 146096) div 365;
          doy = doe - (365 * yoe + yoe div 4 - yoe div 100)
      in yoe + era * 400 + (if doy < 306 then 0 else 1))"

definition DayWithinYear :: "int \<Rightarrow> int" where
  "DayWithinYear d = d - DayFromYear (YearFromDay d)"

text \<open>The number of days of the year that lie before month \<open>m\<close>.\<close>

definition daysBeforeMonth :: "bool \<Rightarrow> int \<Rightarrow> int" where
  "daysBeforeMonth leap m =
     (let l = (if leap then 1 else 0)
      in if m = 0 then 0 else if m = 1 then 31 else if m = 2 then 59 + l
         else if m = 3 then 90 + l else if m = 4 then 120 + l else if m = 5 then 151 + l
         else if m = 6 then 181 + l else if m = 7 then 212 + l else if m = 8 then 243 + l
         else if m = 9 then 273 + l else if m = 10 then 304 + l else 334 + l)"

definition MonthFromDay :: "int \<Rightarrow> int" where
  "MonthFromDay d =
     (let w = DayWithinYear d; l = (if InLeapYear (YearFromDay d) then 1 else 0)
      in if w < 31 then 0 else if w < 59 + l then 1 else if w < 90 + l then 2
         else if w < 120 + l then 3 else if w < 151 + l then 4 else if w < 181 + l then 5
         else if w < 212 + l then 6 else if w < 243 + l then 7 else if w < 273 + l then 8
         else if w < 304 + l then 9 else if w < 334 + l then 10 else 11)"

definition DateFromDay :: "int \<Rightarrow> int" where
  "DateFromDay d =
     DayWithinYear d - daysBeforeMonth (InLeapYear (YearFromDay d)) (MonthFromDay d) + 1"

definition WeekDay :: "int \<Rightarrow> int" where
  "WeekDay d = (d + 4) mod 7"

text \<open>\<^verbatim>\<open>MakeDay(year, month, date)\<close>: the day number of the given date of the given month.\<close>

definition MakeDay :: "int \<Rightarrow> int \<Rightarrow> int \<Rightarrow> int" where
  "MakeDay year month date' =
     (let ym = year + month div 12; mn = month mod 12
      in DayFromYear ym + daysBeforeMonth (InLeapYear ym) mn + date' - 1)"

subsection \<open>The methods of \<^verbatim>\<open>Date\<close> that the page calls\<close>

text \<open>A getter of an invalid date gives NaN, here \<open>None\<close>.\<close>

definition getFullYear :: "int \<Rightarrow> jsdate \<Rightarrow> int option" where
  "getFullYear tz d = map_option (\<lambda>t. YearFromDay (Day (LocalTime tz t))) d"

definition getMonth :: "int \<Rightarrow> jsdate \<Rightarrow> int option" where
  "getMonth tz d = map_option (\<lambda>t. MonthFromDay (Day (LocalTime tz t))) d"

definition getDate :: "int \<Rightarrow> jsdate \<Rightarrow> int option" where
  "getDate tz d = map_option (\<lambda>t. DateFromDay (Day (LocalTime tz t))) d"

text \<open>\<^verbatim>\<open>d.setDate(n)\<close>: the day of the month is replaced, the time within the day is kept.\<close>

definition setDate :: "int \<Rightarrow> jsdate \<Rightarrow> int option \<Rightarrow> jsdate" where
  "setDate tz d n =
     (case (d, n) of
        (Some t, Some dt) \<Rightarrow>
          (let l = LocalTime tz t
           in Some (UTC tz (MakeDay (YearFromDay (Day l)) (MonthFromDay (Day l)) dt * msPerDay
                            + l mod msPerDay)))
      | _ \<Rightarrow> None)"

text \<open>\<^verbatim>\<open>d.setHours(h, m, s, ms)\<close>: the time within the local day is replaced.\<close>

definition setHours :: "int \<Rightarrow> jsdate \<Rightarrow> int \<Rightarrow> int \<Rightarrow> int \<Rightarrow> int \<Rightarrow> jsdate" where
  "setHours tz d h m s ms =
     map_option (\<lambda>t. UTC tz (Day (LocalTime tz t) * msPerDay
                             + (h * 3600000 + m * 60000 + s * 1000 + ms))) d"

text \<open>
  \<^verbatim>\<open>new Date(year, month, date, h, m, s, ms)\<close> in local time. A year from 0 to 99 stands for
  1900 plus that year; a month outside 0 to 11 and a date outside the month carry over.
\<close>

definition Date_of_parts ::
  "int \<Rightarrow> int option \<Rightarrow> int option \<Rightarrow> int \<Rightarrow> int \<Rightarrow> int \<Rightarrow> int \<Rightarrow> int \<Rightarrow> jsdate"
where
  "Date_of_parts tz year month date' h m s ms =
     (case (year, month) of
        (Some y, Some mo) \<Rightarrow>
          (let yr = (if 0 \<le> y \<and> y \<le> 99 then 1900 + y else y)
           in Some (UTC tz (MakeDay yr mo date' * msPerDay
                            + (h * 3600000 + m * 60000 + s * 1000 + ms))))
      | _ \<Rightarrow> None)"

subsection \<open>Numbers and dates as text\<close>

definition digitChar :: "nat \<Rightarrow> char" where
  "digitChar n = ''0123456789'' ! n"

function digits :: "nat \<Rightarrow> string" where
  "digits n = (if n < 10 then [digitChar n] else digits (n div 10) @ [digitChar (n mod 10)])"
  by pat_completeness auto
termination
  by (relation "measure id") auto

declare digits.simps [simp del]

text \<open>\<^verbatim>\<open>String(n)\<close> for an integer or NaN.\<close>

definition String_of :: "int option \<Rightarrow> string" where
  "String_of v =
     (case v of
        None \<Rightarrow> ''NaN''
      | Some i \<Rightarrow> if i < 0 then CHR ''-'' # digits (nat (- i)) else digits (nat i))"

text \<open>\<^verbatim>\<open>s.padStart(2, '0')\<close>\<close>

definition padStart2 :: "string \<Rightarrow> string" where
  "padStart2 s = replicate (2 - length s) CHR ''0'' @ s"

text \<open>
  The key of the local day of a date:
  \<^verbatim>\<open>`${d.getFullYear()}-${String(d.getMonth() + 1).padStart(2, '0')}-${String(d.getDate()).padStart(2, '0')}`\<close>
\<close>

definition localDateKey :: "int \<Rightarrow> jsdate \<Rightarrow> string" where
  "localDateKey tz d =
     String_of (getFullYear tz d) @ ''-''
     @ padStart2 (String_of (map_option (\<lambda>m. m + 1) (getMonth tz d))) @ ''-''
     @ padStart2 (String_of (getDate tz d))"

definition weekdayShort :: "int \<Rightarrow> string" where
  "weekdayShort w = [''Sun'', ''Mon'', ''Tue'', ''Wed'', ''Thu'', ''Fri'', ''Sat''] ! nat w"

definition monthShort :: "int \<Rightarrow> string" where
  "monthShort m = [''Jan'', ''Feb'', ''Mar'', ''Apr'', ''May'', ''Jun'',
                   ''Jul'', ''Aug'', ''Sep'', ''Oct'', ''Nov'', ''Dec''] ! nat m"

text \<open>
  \<^verbatim>\<open>d.toLocaleDateString('en-US', { weekday: 'short', month: 'short', day: 'numeric' })\<close>,
  as in \<^verbatim>\<open>Mon, Mar 3\<close>.
\<close>

definition labelWeekdayMonthDay :: "int \<Rightarrow> jsdate \<Rightarrow> string" where
  "labelWeekdayMonthDay tz d =
     (case d of
        None \<Rightarrow> ''Invalid Date''
      | Some t \<Rightarrow>
          (let n = Day (LocalTime tz t)
           in weekdayShort (WeekDay n) @ '', '' @ monthShort (MonthFromDay n) @ '' ''
              @ String_of (Some (DateFromDay n))))"

text \<open>\<^verbatim>\<open>d.toLocaleDateString('en-US', { month: 'short', day: 'numeric' })\<close>, as in \<^verbatim>\<open>Mar 3\<close>.\<close>

definition labelMonthDay :: "int \<Rightarrow> jsdate \<Rightarrow> string" where
  "labelMonthDay tz d =
     (case d of
        None \<Rightarrow> ''Invalid Date''
      | Some t \<Rightarrow>
          (let n = Day (LocalTime tz t)
           in monthShort (MonthFromDay n) @ '' '' @ String_of (Some (DateFromDay n))))"

text \<open>\<^verbatim>\<open>d.toLocaleDateString('en-US', { month: 'short' })\<close>, as in \<^verbatim>\<open>Mar\<close>.\<close>

definition labelMonth :: "int \<Rightarrow> jsdate \<Rightarrow> string" where
  "labelMonth tz d =
     (case d of
        None \<Rightarrow> ''Invalid Date''
      | Some t \<Rightarrow> monthShort (MonthFromDay (Day (LocalTime tz t))))"

section \<open>Chart buckets\<close>

record bucket =
  key :: string
  label :: string
  start :: jsdate
  finish :: jsdate

text \<open>
  The bucket of the current day, built by the \<^verbatim>\<open>'today'\<close> branch of
  \<^verbatim>\<open>getChartDateRangeFromSessions\<close> and by its \<^verbatim>\<open>'week'\<close> branch when there is no session.
  \<open>now\<close> is the value of \<^verbatim>\<open>new Date()\<close>. The field \<^verbatim>\<open>end\<close> of the source is \<open>finish\<close> here.
\<close>

definition todayBucket :: "int \<Rightarrow> int \<Rightarrow> bucket" where
  "todayBucket tz now =
     (let today = Some now;
          startDate = setHours tz today 0 0 0 0;
          endDate = setHours tz today 23 59 59 999
      in \<lparr>key = localDateKey tz today, label = labelWeekdayMonthDay tz today,
          start = startDate, finish = endDate\<rparr>)"

definition getChartDateRange_today :: "int \<Rightarrow> int \<Rightarrow> bucket list" where
  "getChartDateRange_today tz now = [todayBucket tz now]"

text \<open>
  The earliest session date of the \<^verbatim>\<open>'week'\<close> branch:
  \<^verbatim>\<open>sessions.reduce((earliest, session) => sessionDate < earliest ? sessionDate : earliest, new Date(sessions[0]...))\<close>
\<close>

definition earliestSession :: "session \<Rightarrow> session list \<Rightarrow> jsdate" where
  "earliestSession s0 sessions =
     foldl (\<lambda>earliest session.
              if date_lt (sessionDate session) earliest then sessionDate session else earliest)
           (sessionDate s0) sessions"

text \<open>The body of the loop \<^verbatim>\<open>for (let i = 0; i < 8; i++)\<close> of the \<^verbatim>\<open>'week'\<close> branch.\<close>

definition weekDayBucket :: "int \<Rightarrow> jsdate \<Rightarrow> int \<Rightarrow> bucket" where
  "weekDayBucket tz earliest i =
     (let dayStart = setHours tz (setDate tz earliest (map_option (\<lambda>d. d + i) (getDate tz earliest)))
                       0 0 0 0;
          dayEnd = setHours tz dayStart 23 59 59 999
      in \<lparr>key = localDateKey tz dayStart, label = labelWeekdayMonthDay tz dayStart,
          start = dayStart, finish = dayEnd\<rparr>)"

text \<open>The \<^verbatim>\<open>'week'\<close> branch of \<^verbatim>\<open>getChartDateRangeFromSessions\<close>.\<close>

definition getChartDateRange_week :: "int \<Rightarrow> int \<Rightarrow> session list \<Rightarrow> bucket list" where
  "getChartDateRange_week tz now sessions =
     (case sessions of
        [] \<Rightarrow> [todayBucket tz now]
      | s0 # _ \<Rightarrow> map (\<lambda>i. weekDayBucket tz (earliestSession s0 sessions) (int i)) [0..<8])"

text \<open>
  The bucket of the month \<open>month + i\<close> of the year \<open>year\<close>, from the first millisecond of its
  first day to the last millisecond of its last day, which is day 0 of the month after it.
\<close>

definition monthBucket :: "int \<Rightarrow> int option \<Rightarrow> int option \<Rightarrow> int \<Rightarrow> bucket" where
  "monthBucket tz year month i =
     (let monthStart = Date_of_parts tz year (map_option (\<lambda>m. m + i) month) 1 0 0 0 0;
          monthEnd = Date_of_parts tz year (map_option (\<lambda>m. m + i + 1) month) 0 23 59 59 999
      in \<lparr>key = String_of (getFullYear tz monthStart) @ ''-''
                @ padStart2 (String_of (map_option (\<lambda>m. m + 1) (getMonth tz monthStart))),
          label = labelMonth tz monthStart,
          start = monthStart, finish = monthEnd\<rparr>)"

text \<open>
  The \<^verbatim>\<open>'month'\<close> branch: the current month when there is no session, and otherwise the month
  of the earliest session and the 4 months after it.
\<close>

definition getChartDateRange_month :: "int \<Rightarrow> int \<Rightarrow> session list \<Rightarrow> bucket list" where
  "getChartDateRange_month tz now sessions =
     (case sessions of
        [] \<Rightarrow>
          (let monthCursor = Date_of_parts tz (getFullYear tz (Some now)) (getMonth tz (Some now))
                               1 0 0 0 0
           in [monthBucket tz (getFullYear tz monthCursor) (getMonth tz monthCursor) 0])
      | s0 # _ \<Rightarrow>
          (let earliest = earliestSession s0 sessions
           in map (\<lambda>i. monthBucket tz (getFullYear tz earliest) (getMonth tz earliest) (int i))
                  [0..<5]))"

text \<open>
  The loop \<^verbatim>\<open>while (cur <= end)\<close> of the \<^verbatim>\<open>'custom'\<close> branch, which makes a bucket of 24 hours
  and moves \<open>cur\<close> to the next day.
\<close>

function customDays :: "int \<Rightarrow> jsdate \<Rightarrow> jsdate \<Rightarrow> bucket list" where
  "customDays tz cur end' =
     (if date_le cur end' then
        \<lparr>key = localDateKey tz cur, label = labelMonthDay tz cur,
         start = cur, finish = map_option (\<lambda>t. t + 24 * 3600 * 1000 - 1) cur\<rparr>
        # customDays tz (setDate tz cur (map_option (\<lambda>d. d + 1) (getDate tz cur))) end'
      else [])"
  by pat_completeness auto
termination
proof (relation "measure (\<lambda>(tz, cur, end').
                   case (cur, end') of (Some c, Some e) \<Rightarrow> nat (e - c + 1) | _ \<Rightarrow> 0)")
  show "wf (measure (\<lambda>(tz, cur, end').
              case (cur, end') of (Some c, Some e) \<Rightarrow> nat (e - c + 1) | _ \<Rightarrow> 0))"
    by simp
next
  fix tz :: int and cur end' :: jsdate
  assume le: "date_le cur end'"
  then obtain c e where ce: "cur = Some c" "end' = Some e" "c \<le> e"
    by (auto simp: date_le_def split: option.splits)
  let ?l = "LocalTime tz c"
  let ?n = "Day ?l"
  have "0 \<le> MonthFromDay ?n \<and> MonthFromDay ?n < 12"
    by (simp add: MonthFromDay_def Let_def)
  then have "MonthFromDay ?n div 12 = 0" "MonthFromDay ?n mod 12 = MonthFromDay ?n"
    by (simp_all add: div_pos_pos_trivial)
  then have "MakeDay (YearFromDay ?n) (MonthFromDay ?n) (DateFromDay ?n + 1) = ?n + 1"
    by (simp add: MakeDay_def DateFromDay_def DayWithinYear_def)
  moreover have "?n * msPerDay + ?l mod msPerDay = ?l"
    by (simp add: Day_def)
  ultimately have "setDate tz cur (map_option (\<lambda>d. d + 1) (getDate tz cur)) = Some (c + msPerDay)"
    by (simp add: ce setDate_def getDate_def Let_def UTC_def LocalTime_def algebra_simps)
  then show "((tz, setDate tz cur (map_option (\<lambda>d. d + 1) (getDate tz cur)), end'), (tz, cur, end'))
             \<in> measure (\<lambda>(tz, cur, end').
                   case (cur, end') of (Some c, Some e) \<Rightarrow> nat (e - c + 1) | _ \<Rightarrow> 0)"
    using ce by (simp add: msPerDay_def)
qed

declare customDays.simps [simp del]

text \<open>
  The \<^verbatim>\<open>'custom'\<close> branch. A date field of the page is \<open>None\<close> when its text is empty, and
  otherwise what \<^verbatim>\<open>new Date\<close> makes of its text.
\<close>

definition getChartDateRange_custom ::
  "int \<Rightarrow> int \<Rightarrow> jsdate option \<Rightarrow> jsdate option \<Rightarrow> bucket list"
where
  "getChartDateRange_custom tz now customStartDate customEndDate =
     (let start0 = (case customStartDate of None \<Rightarrow> Some now | Some d \<Rightarrow> d);
          end0 = (case customEndDate of None \<Rightarrow> Some now | Some d \<Rightarrow> d);
          start' = setHours tz start0 0 0 0 0;
          end' = setHours tz end0 23 59 59 999
      in customDays tz start' end')"

text \<open>The default branch: the day \<open>i\<close> days before today, for \<open>i\<close> from 6 down to 0.\<close>

definition defaultDayBucket :: "int \<Rightarrow> int \<Rightarrow> int \<Rightarrow> bucket" where
  "defaultDayBucket tz now i =
     (let dStart = setHours tz (setDate tz (Some now)
                                  (map_option (\<lambda>d. d - i) (getDate tz (Some now)))) 0 0 0 0;
          dEnd = map_option (\<lambda>t. t + 24 * 3600 * 1000 - 1) dStart
      in \<lparr>key = localDateKey tz dStart, label = labelWeekdayMonthDay tz dStart,
          start = dStart, finish = dEnd\<rparr>)"

definition getChartDateRange_default :: "int \<Rightarrow> int \<Rightarrow> bucket list" where
  "getChartDateRange_default tz now = map (\<lambda>i. defaultDayBucket tz now (int i)) (rev [0..<7])"

subsection \<open>One-day buckets by day number\<close>

text \<open>
  The bucket of the local day with number \<open>n\<close>: its key and its label are those of the
  calendar date of that day, and it runs from the first to the last millisecond of the day.
\<close>

definition dayKey :: "int \<Rightarrow> string" where
  "dayKey n =
     String_of (Some (YearFromDay n)) @ ''-''
     @ padStart2 (String_of (Some (MonthFromDay n + 1))) @ ''-''
     @ padStart2 (String_of (Some (DateFromDay n)))"

definition dayLabel :: "int \<Rightarrow> string" where
  "dayLabel n =
     weekdayShort (WeekDay n) @ '', '' @ monthShort (MonthFromDay n) @ '' ''
     @ String_of (Some (DateFromDay n))"

definition dayBucket :: "int \<Rightarrow> int \<Rightarrow> bucket" where
  "dayBucket tz n =
     \<lparr>key = dayKey n, label = dayLabel n,
      start = Some (UTC tz (n * msPerDay)),
      finish = Some (UTC tz (n * msPerDay + 86399999))\<rparr>"

section \<open>Errors\<close>

text \<open>
  What the code can throw: a \<^verbatim>\<open>TypeError\<close> for a method of \<^verbatim>\<open>undefined\<close>, the error
  \<^verbatim>\<open>User not authenticated\<close> of the service, and a rejection by the remote store.
\<close>

datatype error = TypeError | NotAuthenticated | RemoteError

section \<open>Grouping sessions into buckets\<close>

text \<open>\<^verbatim>\<open>sessionDate >= dr.start && sessionDate <= dr.end\<close>\<close>

definition inBucket :: "session \<Rightarrow> bucket \<Rightarrow> bool" where
  "inBucket s dr = (date_ge (sessionDate s) (start dr) \<and> date_le (sessionDate s) (finish dr))"

text \<open>\<^verbatim>\<open>for (const dr of dateRange) map[dr.key] = [];\<close>\<close>

definition emptyBuckets :: "bucket list \<Rightarrow> (string \<rightharpoonup> session list)" where
  "emptyBuckets dateRange = foldl (\<lambda>m dr. m(key dr \<mapsto> [])) Map.empty dateRange"

text \<open>
  The inner loop, which stops at the first bucket that holds the session.
  \<^verbatim>\<open>map[dr.key].push(s)\<close> on a key that the map lacks is a \<^verbatim>\<open>TypeError\<close>.
\<close>

fun pushIntoFirst ::
  "(string \<rightharpoonup> session list) \<Rightarrow> session \<Rightarrow> bucket list \<Rightarrow> error + (string \<rightharpoonup> session list)"
where
  "pushIntoFirst m s [] = Inr m"
| "pushIntoFirst m s (dr # rest) =
     (if inBucket s dr then
        (case m (key dr) of
           None \<Rightarrow> Inl TypeError
         | Some ss \<Rightarrow> Inr (m(key dr \<mapsto> ss @ [s])))
      else pushIntoFirst m s rest)"

text \<open>The outer loop \<^verbatim>\<open>for (const s of sessions)\<close>.\<close>

fun groupLoop ::
  "(string \<rightharpoonup> session list) \<Rightarrow> session list \<Rightarrow> bucket list \<Rightarrow> error + (string \<rightharpoonup> session list)"
where
  "groupLoop m [] dateRange = Inr m"
| "groupLoop m (s # rest) dateRange =
     (case pushIntoFirst m s dateRange of
        Inl e \<Rightarrow> Inl e
      | Inr m' \<Rightarrow> groupLoop m' rest dateRange)"

definition groupSessionsIntoBuckets ::
  "session list \<Rightarrow> bucket list \<Rightarrow> error + (string \<rightharpoonup> session list)"
where
  "groupSessionsIntoBuckets sessions dateRange = groupLoop (emptyBuckets dateRange) sessions dateRange"

text \<open>The key of the first bucket, in the order of the list, that holds the session.\<close>

definition firstBucketKey :: "session \<Rightarrow> bucket list \<Rightarrow> string option" where
  "firstBucketKey s dateRange = map_option key (find (inBucket s) dateRange)"

section \<open>Categories\<close>

text \<open>
  A text is a list of characters, and a character is a UTF-16 code unit below 256: the texts
  are those of Latin-1. The category of a session is a text or is absent.

  \<^verbatim>\<open>toLowerCase\<close> works character by character on such a text: a capital letter, one of A to
  Z (the codes 65 to 90) and of the letters from U+00C0 to U+00DE other than the
  multiplication sign U+00D7 (the codes 192 to 214 and 216 to 222), becomes its small letter,
  which lies 32 codes above it, and every other character is left alone.
\<close>

definition toLowerChar :: "char \<Rightarrow> char" where
  "toLowerChar c =
     (let n = of_char c :: nat
      in if (65 \<le> n \<and> n \<le> 90) \<or> (192 \<le> n \<and> n \<le> 214) \<or> (216 \<le> n \<and> n \<le> 222)
         then char_of (n + 32)
         else c)"

definition toLowerCase :: "string \<Rightarrow> string" where
  "toLowerCase s = map toLowerChar s"

text \<open>
  The capital letters among the characters and, in the same order, their small letters,
  written out as tables.
\<close>

definition capitalLetters :: string where
  "capitalLetters =
     ''ABCDEFGHIJKLMNOPQRSTUVWXYZ''
     @ [CHR 0xC0, CHR 0xC1, CHR 0xC2, CHR 0xC3, CHR 0xC4, CHR 0xC5, CHR 0xC6, CHR 0xC7,
        CHR 0xC8, CHR 0xC9, CHR 0xCA, CHR 0xCB, CHR 0xCC, CHR 0xCD, CHR 0xCE, CHR 0xCF,
        CHR 0xD0, CHR 0xD1, CHR 0xD2, CHR 0xD3, CHR 0xD4, CHR 0xD5, CHR 0xD6,
        CHR 0xD8, CHR 0xD9, CHR 0xDA, CHR 0xDB, CHR 0xDC, CHR 0xDD, CHR 0xDE]"

definition smallLetters :: string where
  "smallLetters =
     ''abcdefghijklmnopqrstuvwxyz''
     @ [CHR 0xE0, CHR 0xE1, CHR 0xE2, CHR 0xE3, CHR 0xE4, CHR 0xE5, CHR 0xE6, CHR 0xE7,
        CHR 0xE8, CHR 0xE9, CHR 0xEA, CHR 0xEB, CHR 0xEC, CHR 0xED, CHR 0xEE, CHR 0xEF,
        CHR 0xF0, CHR 0xF1, CHR 0xF2, CHR 0xF3, CHR 0xF4, CHR 0xF5, CHR 0xF6,
        CHR 0xF8, CHR 0xF9, CHR 0xFA, CHR 0xFB, CHR 0xFC, CHR 0xFD, CHR 0xFE]"

text \<open>
  The class \<^verbatim>\<open>\s\<close> of a regular expression, among the characters below 256: the tab, the line
  feed, the vertical tab, the form feed, the carriage return, the space and the no-break
  space U+00A0.
\<close>

definition isSpace :: "char \<Rightarrow> bool" where
  "isSpace c =
     (c \<in> set [CHR 0x09, CHR 0x0A, CHR 0x0B, CHR 0x0C, CHR 0x0D, CHR 0x20, CHR 0xA0])"

text \<open>\<^verbatim>\<open>s.replace(/\s+/g, '-')\<close>: every maximal run of white space becomes one hyphen.\<close>

function replaceSpaces :: "string \<Rightarrow> string" where
  "replaceSpaces [] = []"
| "replaceSpaces (c # cs) =
     (if isSpace c then CHR ''-'' # replaceSpaces (dropWhile isSpace cs)
      else c # replaceSpaces cs)"
  by pat_completeness auto
termination
  by (relation "measure length") (auto simp: less_Suc_eq_le length_dropWhile_le)

text \<open>
  \<^verbatim>\<open>(session.category || '').toString().toLowerCase().replace(/\s+/g, '-')\<close>; an absent category
  and the empty text both give the empty text.
\<close>

definition normalizedCategory :: "session \<Rightarrow> string" where
  "normalizedCategory s =
     replaceSpaces (toLowerCase (case category s of None \<Rightarrow> [] | Some c \<Rightarrow> c))"

text \<open>\<^verbatim>\<open>isSessionInCategory\<close>\<close>

definition isSessionInCategory :: "session \<Rightarrow> string \<Rightarrow> bool" where
  "isSessionInCategory s catKey =
     (let c = normalizedCategory s
      in if catKey = ''category-match''
         then c = ''category-match'' \<or> c = ''categorymatch'' \<or> c = ''category match''
         else c = catKey \<or> c = ''name-that-memory-'' @ catKey)"

text \<open>
  The keys of the table \<^verbatim>\<open>cats\<close> of \<^verbatim>\<open>getChartData\<close>, one per series of the chart; the sessions
  of a series are those for which \<^verbatim>\<open>isSessionInCategory\<close> holds with the key of the series.
\<close>

definition cats :: "string list" where
  "cats = [''people'', ''places'', ''objects'', ''category-match'']"

text \<open>A session that carries nothing but a category label.\<close>

definition labelled :: "string \<Rightarrow> session" where
  "labelled raw =
     \<lparr>category = Some raw, totalQuestions = None, correctAnswers = None, skipped = None,
      totalTime = None, timestamp = None, createdAt = None\<rparr>"

section \<open>The page\<close>

text \<open>
  The values of \<^verbatim>\<open>selectedPeriod\<close>: \<^verbatim>\<open>'today'\<close>, \<^verbatim>\<open>'week'\<close>, \<^verbatim>\<open>'month'\<close>, \<^verbatim>\<open>'all'\<close>,
  \<^verbatim>\<open>'custom'\<close> and any other text.
\<close>

datatype period = Today | Week | Month | AllTime | Custom | Other

record page =
  selectedPeriod :: period
  customStartDate :: "jsdate option"
  customEndDate :: "jsdate option"
  isLoading :: bool
  isFirebaseConnected :: bool
  dataSource :: string
  lastDataUpdate :: int
  overallStats :: stats

section \<open>Filtering by period\<close>

text \<open>
  The part of \<^verbatim>\<open>filterSessionsByPeriod\<close> that follows the building of the buckets: the
  sessions from the start of the first bucket to the end of the last.
\<close>

definition withinBuckets :: "bucket list \<Rightarrow> session list \<Rightarrow> session list" where
  "withinBuckets dateBuckets sessions =
     (if length dateBuckets = 0 then []
      else
        let start' = start (dateBuckets ! 0);
            end' = finish (dateBuckets ! (length dateBuckets - 1))
        in filter (\<lambda>session. date_ge (sessionDate session) start'
                             \<and> date_le (sessionDate session) end') sessions)"

text \<open>
  \<^verbatim>\<open>filterSessionsByPeriod\<close>. The period \<^verbatim>\<open>'all'\<close> returns before any bucket is built; each
  other period builds the buckets of its branch of \<^verbatim>\<open>getChartDateRangeFromSessions\<close>.
\<close>

definition filterSessionsByPeriod :: "int \<Rightarrow> int \<Rightarrow> page \<Rightarrow> session list \<Rightarrow> session list" where
  "filterSessionsByPeriod tz now pg sessions =
     (case selectedPeriod pg of
        AllTime \<Rightarrow> sessions
      | Today \<Rightarrow> withinBuckets (getChartDateRange_today tz now) sessions
      | Week \<Rightarrow> withinBuckets (getChartDateRange_week tz now sessions) sessions
      | Month \<Rightarrow> withinBuckets (getChartDateRange_month tz now sessions) sessions
      | Custom \<Rightarrow> withinBuckets (getChartDateRange_custom tz now (customStartDate pg)
                                      (customEndDate pg)) sessions
      | Other \<Rightarrow> withinBuckets (getChartDateRange_default tz now) sessions)"

section \<open>The stores\<close>

text \<open>
  \<^verbatim>\<open>localStorage\<close> maps keys to texts. What lies outside the page is a parameter: \<^verbatim>\<open>JSON.parse\<close>
  on the texts that hold session lists (\<open>None\<close> when it throws), \<^verbatim>\<open>JSON.stringify\<close> on session
  lists, and the uid of \<^verbatim>\<open>getCurrentUser()\<close> (\<open>None\<close> when nobody is signed in). A write to
  \<^verbatim>\<open>localStorage\<close> is taken to succeed.
\<close>

type_synonym localStorage = "string \<rightharpoonup> string"

record env =
  JSON_parse :: "string \<Rightarrow> session list option"
  JSON_stringify :: "session list \<Rightarrow> string"
  currentUser :: "string option"

text \<open>\<^verbatim>\<open>a || b\<close> on what \<^verbatim>\<open>getItem\<close> returns: \<^verbatim>\<open>null\<close> and the empty text are falsy.\<close>

definition orText :: "string option \<Rightarrow> string \<Rightarrow> string" where
  "orText a b = (case a of None \<Rightarrow> b | Some t \<Rightarrow> if t = [] then b else t)"

text \<open>\<^verbatim>\<open>this.getCurrentUser()?.uid || localStorage.getItem('userId') || 'anon'\<close>\<close>

definition cacheUid :: "env \<Rightarrow> localStorage \<Rightarrow> string" where
  "cacheUid E ls = orText (currentUser E) (orText (ls ''userId'') ''anon'')"

text \<open>\<^verbatim>\<open>FirebaseService.getCachedData(key, fallback)\<close>; a text that cannot be read gives the fallback.\<close>

definition getCachedData :: "env \<Rightarrow> localStorage \<Rightarrow> string \<Rightarrow> session list \<Rightarrow> session list" where
  "getCachedData E ls key' fallback =
     (let cachedKey = key' @ ''_'' @ cacheUid E ls;
          cached = ls cachedKey
      in case cached of
           None \<Rightarrow> fallback
         | Some t \<Rightarrow>
             if t = [] then fallback
             else (case JSON_parse E t of None \<Rightarrow> fallback | Some v \<Rightarrow> v))"

text \<open>\<^verbatim>\<open>FirebaseService.cacheData(key, data)\<close>\<close>

definition cacheData :: "env \<Rightarrow> localStorage \<Rightarrow> string \<Rightarrow> session list \<Rightarrow> localStorage" where
  "cacheData E ls key' data = ls(key' @ ''_'' @ cacheUid E ls \<mapsto> JSON_stringify E data)"

text \<open>\<^verbatim>\<open>uid ? `gameRecords_${uid}` : 'gameRecords'\<close> with \<^verbatim>\<open>uid = localStorage.getItem('userId')\<close>\<close>

definition localKey :: "localStorage \<Rightarrow> string" where
  "localKey ls =
     (case ls ''userId'' of
        None \<Rightarrow> ''gameRecords''
      | Some uid \<Rightarrow> if uid = [] then ''gameRecords'' else ''gameRecords_'' @ uid)"

section \<open>Loading the progress data\<close>

text \<open>
  The inner \<^verbatim>\<open>try\<close> of \<^verbatim>\<open>loadProgressData\<close>, which settles the sessions, the connection flag and
  the label of the source. \<open>remote\<close> is the outcome of \<^verbatim>\<open>getUserGameSessions()\<close>.
\<close>

definition loadSessions ::
  "env \<Rightarrow> localStorage \<Rightarrow> error + session list \<Rightarrow> session list \<times> bool \<times> string"
where
  "loadSessions E ls remote =
     (case remote of
        Inr sessions \<Rightarrow> (sessions, True, ''Firebase'')
      | Inl fbErr \<Rightarrow>
          (let sessions = getCachedData E ls ''gameRecords'' []
           in if length sessions = 0 then
                let raw = orText (ls (localKey ls)) (orText (ls ''gameRecords'') ''[]'');
                    sessions' = (case JSON_parse E raw of None \<Rightarrow> [] | Some v \<Rightarrow> v)
                in (sessions', False,
                    if length sessions' > 0 then ''Local Storage'' else ''No Data'')
              else (sessions, False, ''Cached Data'')))"

text \<open>
  \<^verbatim>\<open>loadProgressData\<close>: the page and \<^verbatim>\<open>localStorage\<close> after the call. \<open>now\<close> is \<^verbatim>\<open>Date.now()\<close>.
  The upload of the statistics by \<^verbatim>\<open>updateFirebaseStats\<close>, whose failure is caught, touches
  neither and is left out.
\<close>

definition loadProgressData ::
  "int \<Rightarrow> int \<Rightarrow> env \<Rightarrow> localStorage \<Rightarrow> error + session list \<Rightarrow> page \<Rightarrow> page \<times> localStorage"
where
  "loadProgressData tz now E ls remote pg =
     (let pg1 = pg\<lparr>isLoading := True, lastDataUpdate := now\<rparr>;
          (sessions, connected, source) = loadSessions E ls remote;
          pg2 = pg1\<lparr>isFirebaseConnected := connected, dataSource := source\<rparr>;
          filtered = filterSessionsByPeriod tz now pg2 sessions
      in if length filtered > 0 then
           (pg2\<lparr>overallStats := calculateOverallStats filtered, isLoading := False\<rparr>,
            cacheData E ls ''gameRecords'' sessions)
         else
           (pg2\<lparr>overallStats := \<lparr>accuracy = 0, avgTimePerCard = 0, totalCards = 0,
                                  skippedCards = 0\<rparr>,
                isLoading := False\<rparr>,
            ls))"

text \<open>
  The tiers of provenance and the labels of \<^verbatim>\<open>dataSource\<close> that stand for them. A fallback
  that found nothing is shown as \<^verbatim>\<open>No Data\<close>.
\<close>

datatype sourceTier = Live | Cached | Fallback

definition tierOf :: "string \<Rightarrow> sourceTier option" where
  "tierOf source =
     (if source = ''Firebase'' \<or> source = ''Firebase (Real-time)'' then Some Live
      else if source = ''Cached Data'' then Some Cached
      else if source = ''Local Storage'' \<or> source = ''No Data'' then Some Fallback
      else None)"

section \<open>Saving a session\<close>

text \<open>
  \<^verbatim>\<open>JSON.parse(localStorage.getItem(key) || '[]')\<close>, \<^verbatim>\<open>push\<close>, \<^verbatim>\<open>setItem\<close>: \<open>None\<close> when
  \<^verbatim>\<open>JSON.parse\<close> throws.
\<close>

definition appendLocal :: "env \<Rightarrow> localStorage \<Rightarrow> string \<Rightarrow> session \<Rightarrow> localStorage option" where
  "appendLocal E ls key' s =
     (case JSON_parse E (orText (ls key') ''[]'') of
        None \<Rightarrow> None
      | Some sessions \<Rightarrow> Some (ls(key' \<mapsto> JSON_stringify E (sessions @ [s]))))"

text \<open>
  \<^verbatim>\<open>FirebaseService.saveGameSession\<close>. \<open>remoteWrite\<close> is the outcome of the two \<^verbatim>\<open>addDoc\<close>
  calls, \<open>None\<close> when both succeed; \<open>nowIso\<close> is the instant of \<^verbatim>\<open>new Date().toISOString()\<close>.
  The result is the error thrown or \<^verbatim>\<open>localStorage\<close> after the call.
\<close>

definition FirebaseService_saveGameSession ::
  "env \<Rightarrow> int \<Rightarrow> error option \<Rightarrow> localStorage \<Rightarrow> session \<Rightarrow> error + localStorage"
where
  "FirebaseService_saveGameSession E nowIso remoteWrite ls sessionData =
     (case currentUser E of
        None \<Rightarrow> Inl NotAuthenticated
      | Some uid \<Rightarrow>
          (let gameSession = sessionData\<lparr>timestamp := Some (IsoString nowIso)\<rparr>
           in case remoteWrite of
                Some e \<Rightarrow> Inl e
              | None \<Rightarrow>
                  (case appendLocal E ls (''gameRecords_'' @ uid) gameSession of
                     None \<Rightarrow> Inr ls
                   | Some ls' \<Rightarrow> Inr ls')))"

text \<open>
  The static \<^verbatim>\<open>ProgressPage.saveGameSession\<close>, called without a page instance: \<^verbatim>\<open>localStorage\<close>
  after the call. Every error is caught and logged.
\<close>

definition saveGameSession ::
  "env \<Rightarrow> int \<Rightarrow> error option \<Rightarrow> localStorage \<Rightarrow> session \<Rightarrow> localStorage"
where
  "saveGameSession E now remoteWrite ls sessionData =
     (let sessionWithTimestamp =
            sessionData\<lparr>timestamp :=
              Some (case timestamp sessionData of
                      None \<Rightarrow> EpochMs now
                    | Some t \<Rightarrow> if isTruthy t then t else EpochMs now)\<rparr>
      in case FirebaseService_saveGameSession E now remoteWrite ls sessionWithTimestamp of
           Inl e \<Rightarrow> ls
         | Inr ls1 \<Rightarrow>
             (case appendLocal E ls1 (localKey ls1) sessionWithTimestamp of
                None \<Rightarrow> ls1
              | Some ls2 \<Rightarrow> ls2))"

section \<open>The fallback refresh\<close>

text \<open>The delay passed to \<^verbatim>\<open>setInterval\<close> by \<^verbatim>\<open>setupAutoRefresh\<close>, in milliseconds.\<close>

definition autoRefreshDelay :: int where
  "autoRefreshDelay = 3000"

text \<open>The instant of the \<open>k\<close>-th call of the callback of a timer set up at \<open>t0\<close>.\<close>

definition firing :: "int \<Rightarrow> nat \<Rightarrow> int" where
  "firing t0 k = t0 + int k * autoRefreshDelay"

text \<open>
  The callback of the timer at the instant \<open>now\<close>: it reloads when more than 30000
  milliseconds have passed since \<^verbatim>\<open>lastDataUpdate\<close>. The flag tells whether it reloaded.
\<close>

definition autoRefresh ::
  "int \<Rightarrow> int \<Rightarrow> env \<Rightarrow> localStorage \<Rightarrow> error + session list \<Rightarrow> page
   \<Rightarrow> bool \<times> page \<times> localStorage"
where
  "autoRefresh tz now E ls remote pg =
     (let timeSinceLastUpdate = now - lastDataUpdate pg
      in if timeSinceLastUpdate > 30000 then (True, loadProgressData tz now E ls remote pg)
         else (False, pg, ls))"

section \<open>Values for the examples\<close>

text \<open>A session of the category \<^verbatim>\<open>people\<close>, 8 of 10 in 100 seconds, that ended at the instant \<open>t\<close>.\<close>

definition sessionAt :: "int \<Rightarrow> session" where
  "sessionAt t =
     \<lparr>category = Some ''people'', totalQuestions = Some 10, correctAnswers = Some 8,
      skipped = Some 0, totalTime = Some 100, timestamp = Some (EpochMs t), createdAt = None\<rparr>"

text \<open>
  A reader and a writer of JSON for the examples. They know three texts: the empty list, the
  list of the session of 3 March 2025 and the list of the session of 4 March 2025.
\<close>

definition exampleParse :: "string \<Rightarrow> session list option" where
  "exampleParse t =
     (if t = ''[]'' then Some []
      else if t = ''[3 March]'' then Some [sessionAt 1741017599999]
      else if t = ''[4 March]'' then Some [sessionAt 1741017600000]
      else None)"

definition exampleStringify :: "session list \<Rightarrow> string" where
  "exampleStringify sessions =
     (if sessions = [] then ''[]''
      else if sessions = [sessionAt 1741017599999] then ''[3 March]''
      else if sessions = [sessionAt 1741017600000] then ''[4 March]''
      else ''[...]'')"

text \<open>The environment of the examples: the user \<^verbatim>\<open>u1\<close> is signed in.\<close>

definition exampleEnv :: env where
  "exampleEnv =
     \<lparr>JSON_parse = exampleParse, JSON_stringify = exampleStringify, currentUser = Some ''u1''\<rparr>"

text \<open>The page as it is constructed: it shows the current day and has loaded nothing yet.\<close>

definition examplePage :: page where
  "examplePage =
     \<lparr>selectedPeriod = Today, customStartDate = None, customEndDate = None,
      isLoading = True, isFirebaseConnected = False, dataSource = ''Loading...'',
      lastDataUpdate = 0,
      overallStats = \<lparr>accuracy = 0, avgTimePerCard = 0, totalCards = 0, skippedCards = 0\<rparr>\<rparr>"

text \<open>
  Following the specification: the records parsed from the durable store of the user, the
  entry of \<^verbatim>\<open>localStorage\<close> under the key of the user; an entry that is absent or cannot be
  read holds no records.
\<close>

definition perUserRecords :: "env \<Rightarrow> localStorage \<Rightarrow> session list" where
  "perUserRecords E ls =
     (case JSON_parse E (orText (ls (localKey ls)) ''[]'') of None \<Rightarrow> [] | Some v \<Rightarrow> v)"

section \<open>Properties of the doubles\<close>

lemma roundHalfEven_error: "\<bar>of_int (roundHalfEven x) - x\<bar> \<le> 1 / 2"
proof -
  have "of_int \<lfloor>x\<rfloor> \<le> x" "x < of_int \<lfloor>x\<rfloor> + 1"
    by linarith+
  then show ?thesis
    by (auto simp: roundHalfEven_def Let_def)
qed

lemma roundHalfEven_of_int: "roundHalfEven (of_int m) = m"
  by (simp add: roundHalfEven_def)

lemma exponentOf_bounds:
  assumes "x \<noteq> 0"
  shows "2 powi exponentOf x \<le> \<bar>x\<bar> \<and> \<bar>x\<bar> < 2 powi (exponentOf x + 1)"
proof -
  obtain n d where nd: "quotient_of \<bar>x\<bar> = (n, d)"
    by (cases "quotient_of \<bar>x\<bar>")
  then have d: "0 < d" and x: "\<bar>x\<bar> = of_int n / of_int d"
    by (auto dest: quotient_of_denom_pos quotient_of_div)
  have "0 < \<bar>x\<bar>"
    using assms by simp
  then have "(0::rat) < of_int n / of_int d"
    by (simp only: x)
  then have n: "0 < n"
    using d by (simp add: zero_less_divide_iff)
  let ?k = "bitlen n - bitlen d"
  have bn: "2 ^ nat (bitlen n - 1) \<le> n" "n < 2 ^ nat (bitlen n)"
    using bitlen_bounds [OF n] by simp_all
  have bd: "2 ^ nat (bitlen d - 1) \<le> d" "d < 2 ^ nat (bitlen d)"
    using bitlen_bounds [OF d] by simp_all
  have ln: "1 \<le> bitlen n" and ld: "1 \<le> bitlen d"
    using n d by (auto simp: bitlen_alt_def)
  have pn: "(2::rat) powi (bitlen n - 1) \<le> of_int n" "of_int n < (2::rat) powi bitlen n"
  proof -
    have "(2::rat) powi (bitlen n - 1) = of_int (2 ^ nat (bitlen n - 1))"
      using ln by (simp add: power_int_def)
    also have "\<dots> \<le> of_int n"
      using bn(1) by (simp only: of_int_le_iff)
    finally show "(2::rat) powi (bitlen n - 1) \<le> of_int n" .
    have "(of_int n :: rat) < of_int (2 ^ nat (bitlen n))"
      using bn(2) by (simp only: of_int_less_iff)
    also have "\<dots> = (2::rat) powi bitlen n"
      using ln by (simp add: power_int_def)
    finally show "of_int n < (2::rat) powi bitlen n" .
  qed
  have pd: "(2::rat) powi (bitlen d - 1) \<le> of_int d" "of_int d < (2::rat) powi bitlen d"
  proof -
    have "(2::rat) powi (bitlen d - 1) = of_int (2 ^ nat (bitlen d - 1))"
      using ld by (simp add: power_int_def)
    also have "\<dots> \<le> of_int d"
      using bd(1) by (simp only: of_int_le_iff)
    finally show "(2::rat) powi (bitlen d - 1) \<le> of_int d" .
    have "(of_int d :: rat) < of_int (2 ^ nat (bitlen d))"
      using bd(2) by (simp only: of_int_less_iff)
    also have "\<dots> = (2::rat) powi bitlen d"
      using ld by (simp add: power_int_def)
    finally show "of_int d < (2::rat) powi bitlen d" .
  qed
  have dpos: "(0::rat) < of_int d" and npos: "(0::rat) < of_int n"
    using d n by simp_all
  have lower: "(2::rat) powi (?k - 1) < \<bar>x\<bar>"
  proof -
    have "(2::rat) powi (?k - 1) = 2 powi (bitlen n - 1) / 2 powi bitlen d"
      using power_int_diff [of "2::rat" "bitlen n - 1" "bitlen d"] by (simp add: algebra_simps)
    also have "\<dots> \<le> of_int n / 2 powi bitlen d"
      using pn(1) by (simp add: divide_right_mono)
    also have "\<dots> < of_int n / of_int d"
      using pd(2) npos dpos by (simp add: divide_strict_left_mono)
    finally show ?thesis
      by (simp add: x)
  qed
  have upper: "\<bar>x\<bar> < (2::rat) powi (?k + 1)"
  proof -
    have "of_int n / of_int d < (2::rat) powi bitlen n / of_int d"
      using pn(2) dpos by (simp add: divide_strict_right_mono)
    also have "\<dots> \<le> 2 powi bitlen n / 2 powi (bitlen d - 1)"
      using pd(1) dpos by (intro divide_left_mono mult_pos_pos) simp_all
    also have "\<dots> = (2::rat) powi (?k + 1)"
      using power_int_diff [of "2::rat" "bitlen n" "bitlen d - 1"] by (simp add: algebra_simps)
    finally show ?thesis
      by (simp add: x)
  qed
  show ?thesis
  proof (cases "2 powi ?k \<le> \<bar>x\<bar>")
    case True
    then have "exponentOf x = ?k"
      by (simp add: exponentOf_def nd)
    with True upper show ?thesis
      by simp
  next
    case False
    then have "exponentOf x = ?k - 1"
      by (simp add: exponentOf_def nd)
    with False lower show ?thesis
      by simp
  qed
qed

lemma nonzero_above_power:
  fixes x :: rat
  assumes "2 powi e \<le> \<bar>x\<bar>"
  shows "x \<noteq> 0"
proof
  have p: "(0::rat) < 2 powi e"
    by simp
  assume "x = 0"
  with assms have "(2::rat) powi e \<le> 0"
    by simp
  with p show False
    by linarith
qed

lemma exponentOf_eqI:
  assumes "2 powi e \<le> \<bar>x\<bar>" "\<bar>x\<bar> < 2 powi (e + 1)"
  shows "exponentOf x = e"
proof -
  have nz: "x \<noteq> 0"
    using assms(1) by (rule nonzero_above_power)
  note b = exponentOf_bounds [OF nz]
  have "(2::rat) powi exponentOf x < 2 powi (e + 1)"
    using b assms(2) by linarith
  then have 1: "exponentOf x < e + 1"
    by (metis linorder_not_less one_less_numeral_iff power_int_increasing order_less_imp_le semiring_norm(76))
  have "(2::rat) powi e < 2 powi (exponentOf x + 1)"
    using b assms(1) by linarith
  then have 2: "e < exponentOf x + 1"
    by (metis linorder_not_less one_less_numeral_iff power_int_increasing order_less_imp_le semiring_norm(76))
  from 1 2 show ?thesis
    by simp
qed

lemma toDouble_eval:
  assumes "2 powi e \<le> \<bar>x\<bar>" "\<bar>x\<bar> < 2 powi (e + 1)"
  shows "toDouble x = of_int (roundHalfEven (x / 2 powi (e - 52))) * 2 powi (e - 52)"
proof -
  have "x \<noteq> 0"
    using assms(1) by (rule nonzero_above_power)
  then show ?thesis
    by (simp add: toDouble_def Let_def exponentOf_eqI [OF assms])
qed

lemma ulp_half:
  "(2::rat) powi (e - 52) / 2 = 2 powi e / 2 ^ 53"
proof -
  have "(2::rat) powi (e - 52) = 2 powi e / 2 powi 52"
    by (rule power_int_diff) simp
  then show ?thesis
    by (simp add: power_int_def)
qed

lemma toDouble_error:
  "\<bar>toDouble x - x\<bar> \<le> \<bar>x\<bar> / 2 ^ 53"
proof (cases "x = 0")
  case True
  then show ?thesis
    by (simp add: toDouble_def)
next
  case False
  let ?u = "(2::rat) powi (exponentOf x - 52)"
  have u: "0 < ?u"
    by simp
  have "toDouble x - x = (of_int (roundHalfEven (x / ?u)) - x / ?u) * ?u"
    using False u by (simp add: toDouble_def Let_def algebra_simps)
  then have "\<bar>toDouble x - x\<bar> = \<bar>of_int (roundHalfEven (x / ?u)) - x / ?u\<bar> * ?u"
    using u by (simp add: abs_mult)
  also have "\<dots> \<le> (1 / 2) * ?u"
    using roundHalfEven_error [of "x / ?u"] u by (intro mult_right_mono) simp_all
  also have "\<dots> = 2 powi exponentOf x / 2 ^ 53"
    using ulp_half [of "exponentOf x"] by simp
  also have "\<dots> \<le> \<bar>x\<bar> / 2 ^ 53"
    using exponentOf_bounds [OF False] by (simp add: divide_right_mono)
  finally show ?thesis .
qed

lemma toDouble_halves:
  assumes "m \<noteq> 0" "\<bar>m\<bar> < 2 ^ 53"
  shows "toDouble (of_int m / 2) = of_int m / 2"
proof -
  let ?x = "of_int m / 2 :: rat"
  let ?e = "exponentOf ?x"
  have nz: "?x \<noteq> 0"
    using assms(1) by simp
  have "(of_int \<bar>m\<bar> :: rat) < of_int (2 ^ 53)"
    using assms(2) by (simp only: of_int_less_iff)
  then have lt: "\<bar>?x\<bar> < 2 powi 52"
    by (simp add: power_int_def)
  have "(2::rat) powi ?e \<le> \<bar>?x\<bar>"
    using exponentOf_bounds [OF nz] by simp
  with lt have "(2::rat) powi ?e < 2 powi 52"
    by linarith
  then have e: "?e < 52"
    by (metis linorder_not_less one_less_numeral_iff power_int_increasing order_less_imp_le semiring_norm(76))
  let ?u = "(2::rat) powi (?e - 52)"
  have u: "0 < ?u"
    by simp
  have "(2::rat) powi (51 - ?e) = 2 powi (- 1) * 2 powi (52 - ?e)"
    using power_int_add [of "2::rat" "- 1" "52 - ?e"] by (simp add: algebra_simps)
  then have h: "(2::rat) powi (52 - ?e) / 2 = 2 powi (51 - ?e)"
    by (simp add: power_int_minus)
  have "1 / ?u = (2::rat) powi (52 - ?e)"
    using power_int_minus [of "2::rat" "?e - 52"] by (simp add: field_simps)
  then have "?x / ?u = of_int m * (2 powi (52 - ?e) / 2)"
    by (simp add: field_simps)
  also have "\<dots> = of_int m * 2 powi (51 - ?e)"
    by (simp only: h)
  also have "\<dots> = of_int (m * 2 ^ nat (51 - ?e))"
    using e by (simp add: power_int_def)
  finally have q: "?x / ?u = of_int (m * 2 ^ nat (51 - ?e))" .
  have "toDouble ?x = of_int (roundHalfEven (?x / ?u)) * ?u"
    using nz by (simp add: toDouble_def Let_def)
  also have "\<dots> = (?x / ?u) * ?u"
    by (simp only: q roundHalfEven_of_int)
  also have "\<dots> = ?x"
    using u by simp
  finally show ?thesis .
qed

text \<open>
  Some doubles: one tenth and one third, and the two integers half-way between doubles that
  follow \<open>2^53\<close>, which go to the neighbour with the even significand.
\<close>

lemma toDouble_examples:
  "toDouble (1 / 10) = 3602879701896397 / 2 ^ 55"
  "toDouble (1 / 3) = 6004799503160661 / 2 ^ 54"
  "toDouble (2 ^ 53 + 1) = 2 ^ 53"
  "toDouble (2 ^ 53 + 3) = 2 ^ 53 + 4"
  "toDouble (- (1 / 10)) = - (3602879701896397 / 2 ^ 55)"
  by code_simp+

text \<open>\<^verbatim>\<open>Math.round\<close> at a tie goes up, also below 0.\<close>

lemma Math_round_examples:
  "Math_round (5 / 2) = 3"
  "Math_round (- (5 / 2)) = - 2"
  "Math_round (7 / 3) = 2"
  "Math_round (8 / 3) = 3"
  by code_simp+

text \<open>
  A value \<open>z\<close> closer than \<open>1 / (2 * q)\<close> to the fraction \<open>a / q\<close> rounds to an integer that
  lies within a half of the fraction.
\<close>

lemma round_near_fraction:
  fixes a q :: int and z :: rat
  assumes q: "0 < q"
      and z: "\<bar>z - of_int a / of_int q\<bar> < 1 / (2 * of_int q)"
  shows "\<bar>of_int \<lfloor>z + 1 / 2\<rfloor> - (of_int a / of_int q :: rat)\<bar> \<le> 1 / 2"
proof -
  define r where "r = \<lfloor>z + 1 / 2\<rfloor>"
  let ?Q = "of_int q :: rat"
  let ?R = "of_int r :: rat"
  let ?A = "of_int a :: rat"
  have Q: "0 < ?Q"
    using q by simp
  have f: "?R \<le> z + 1 / 2" "z + 1 / 2 < ?R + 1"
    unfolding r_def by linarith+
  have z': "z - ?A / ?Q < 1 / (2 * ?Q)" "?A / ?Q - z < 1 / (2 * ?Q)"
    using z by (simp_all add: abs_less_iff)
  have rhs: "(1 / 2 + 1 / (2 * ?Q)) * (2 * ?Q) = of_int (q + 1)"
    using Q by (simp add: field_simps)
  have half: "(1 / 2) * (2 * ?Q) = ?Q"
    by simp
  have l1: "(?R - ?A / ?Q) * (2 * ?Q) = of_int (2 * (r * q - a))"
    using Q by (simp add: field_simps)
  have l2: "(?A / ?Q - ?R) * (2 * ?Q) = of_int (2 * (a - r * q))"
    using Q by (simp add: field_simps)
  have "?R - ?A / ?Q < 1 / 2 + 1 / (2 * ?Q)"
    using f(1) z'(1) by linarith
  then have "(?R - ?A / ?Q) * (2 * ?Q) < (1 / 2 + 1 / (2 * ?Q)) * (2 * ?Q)"
    using Q by (intro mult_strict_right_mono) simp_all
  then have "(of_int (2 * (r * q - a)) :: rat) < of_int (q + 1)"
    by (simp only: l1 rhs)
  then have "2 * (r * q - a) \<le> q"
    by (simp only: of_int_less_iff)
  then have "(of_int (2 * (r * q - a)) :: rat) \<le> ?Q"
    by (simp only: of_int_le_iff)
  then have "(?R - ?A / ?Q) * (2 * ?Q) \<le> (1 / 2) * (2 * ?Q)"
    by (simp only: l1 half)
  then have c1: "?R - ?A / ?Q \<le> 1 / 2"
    using Q by (simp only: mult_le_cancel_right)
  have "?A / ?Q - ?R < 1 / 2 + 1 / (2 * ?Q)"
    using f(2) z'(2) by linarith
  then have "(?A / ?Q - ?R) * (2 * ?Q) < (1 / 2 + 1 / (2 * ?Q)) * (2 * ?Q)"
    using Q by (intro mult_strict_right_mono) simp_all
  then have "(of_int (2 * (a - r * q)) :: rat) < of_int (q + 1)"
    by (simp only: l2 rhs)
  then have "2 * (a - r * q) \<le> q"
    by (simp only: of_int_less_iff)
  then have "(of_int (2 * (a - r * q)) :: rat) \<le> ?Q"
    by (simp only: of_int_le_iff)
  then have "(?A / ?Q - ?R) * (2 * ?Q) \<le> (1 / 2) * (2 * ?Q)"
    by (simp only: l2 half)
  then have c2: "?A / ?Q - ?R \<le> 1 / 2"
    using Q by (simp only: mult_le_cancel_right)
  from c1 c2 have "\<bar>?R - ?A / ?Q\<bar> \<le> 1 / 2"
    by linarith
  then show ?thesis
    by (simp only: r_def)
qed

text \<open>
  Unless the fraction lies half-way between two integers, such a value rounds to the same
  integer as the fraction.
\<close>

lemma round_same_as_fraction:
  fixes a q :: int and z :: rat
  assumes q: "0 < q"
      and z: "\<bar>z - of_int a / of_int q\<bar> < 1 / (2 * of_int q)"
      and tie: "frac (of_int a / of_int q :: rat) \<noteq> 1 / 2"
  shows "\<lfloor>z + 1 / 2\<rfloor> = \<lfloor>(of_int a / of_int q :: rat) + 1 / 2\<rfloor>"
proof -
  let ?Q = "of_int q :: rat"
  let ?A = "of_int a :: rat"
  define r where "r = \<lfloor>?A / ?Q + 1 / 2\<rfloor>"
  let ?R = "of_int r :: rat"
  have Q: "0 < ?Q"
    using q by simp
  have f: "?R \<le> ?A / ?Q + 1 / 2" "?A / ?Q + 1 / 2 < ?R + 1"
    unfolding r_def by linarith+
  have z': "z - ?A / ?Q < 1 / (2 * ?Q)" "?A / ?Q - z < 1 / (2 * ?Q)"
    using z by (simp_all add: abs_less_iff)
  have l1: "(?R - 1 / 2) * (2 * ?Q) = of_int ((2 * r - 1) * q)"
    using Q by (simp add: field_simps)
  have l2: "(?A / ?Q) * (2 * ?Q) = of_int (2 * a)"
    using Q by (simp add: field_simps)
  have l3: "(?R + 1 / 2) * (2 * ?Q) = of_int ((2 * r + 1) * q)"
    using Q by (simp add: field_simps)
  have "?R - 1 / 2 \<noteq> ?A / ?Q"
  proof
    assume eq: "?R - 1 / 2 = ?A / ?Q"
    have "\<lfloor>?R - 1 / 2\<rfloor> = r - 1"
      by (intro floor_unique) simp_all
    then have "frac (?R - 1 / 2) = 1 / 2"
      by (simp add: frac_def)
    then show False
      using tie by (simp only: eq)
  qed
  with f(1) have "?R - 1 / 2 < ?A / ?Q"
    by linarith
  then have "(?R - 1 / 2) * (2 * ?Q) < (?A / ?Q) * (2 * ?Q)"
    using Q by (intro mult_strict_right_mono) simp_all
  then have "(of_int ((2 * r - 1) * q) :: rat) < of_int (2 * a)"
    by (simp only: l1 l2)
  then have "(2 * r - 1) * q + 1 \<le> 2 * a"
    by (simp only: of_int_less_iff)
  then have "(of_int ((2 * r - 1) * q + 1) :: rat) \<le> of_int (2 * a)"
    by (simp only: of_int_le_iff)
  then have "(?R - 1 / 2) * (2 * ?Q) + 1 \<le> (?A / ?Q) * (2 * ?Q)"
    by (simp only: l1 l2 of_int_add of_int_1)
  then have "((?R - 1 / 2) + 1 / (2 * ?Q)) * (2 * ?Q) \<le> (?A / ?Q) * (2 * ?Q)"
    using Q by (simp add: algebra_simps)
  then have lo: "?R - 1 / 2 + 1 / (2 * ?Q) \<le> ?A / ?Q"
    using Q by (simp only: mult_le_cancel_right)
  have "?A / ?Q < ?R + 1 / 2"
    using f(2) by linarith
  then have "(?A / ?Q) * (2 * ?Q) < (?R + 1 / 2) * (2 * ?Q)"
    using Q by (intro mult_strict_right_mono) simp_all
  then have "(of_int (2 * a) :: rat) < of_int ((2 * r + 1) * q)"
    by (simp only: l2 l3)
  then have "2 * a + 1 \<le> (2 * r + 1) * q"
    by (simp only: of_int_less_iff)
  then have "(of_int (2 * a + 1) :: rat) \<le> of_int ((2 * r + 1) * q)"
    by (simp only: of_int_le_iff)
  then have "(?A / ?Q) * (2 * ?Q) + 1 \<le> (?R + 1 / 2) * (2 * ?Q)"
    by (simp only: l2 l3 of_int_add of_int_1)
  then have "(?A / ?Q + 1 / (2 * ?Q)) * (2 * ?Q) \<le> (?R + 1 / 2) * (2 * ?Q)"
    using Q by (simp add: algebra_simps)
  then have hi: "?A / ?Q + 1 / (2 * ?Q) \<le> ?R + 1 / 2"
    using Q by (simp only: mult_le_cancel_right)
  have "?R \<le> z + 1 / 2" "z + 1 / 2 < ?R + 1"
    using lo hi z' by linarith+
  then have "\<lfloor>z + 1 / 2\<rfloor> = r"
    by (intro floor_unique) simp_all
  then show ?thesis
    by (simp only: r_def)
qed

text \<open>
  The percentage that the code computes, a quotient and then a product of doubles, is closer
  than \<open>1 / (2 * q)\<close> to the exact percentage \<open>100 * c / q\<close>.
\<close>

lemma percentage_error:
  fixes c q :: int
  assumes q: "0 < q" and c: "\<bar>c\<bar> < 2 ^ 43"
  shows "\<bar>timesDouble (divideDouble (of_int c) (of_int q)) 100 - of_int (100 * c) / of_int q\<bar>
           < 1 / (2 * of_int q)"
proof -
  let ?x = "of_int c / of_int q :: rat"
  let ?d = "toDouble ?x"
  let ?z = "toDouble (?d * 100)"
  have Q: "0 < (of_int q :: rat)"
    using q by simp
  have e1: "\<bar>?d - ?x\<bar> \<le> \<bar>?x\<bar> / 2 ^ 53"
    by (rule toDouble_error)
  have e2: "\<bar>?z - ?d * 100\<bar> \<le> \<bar>?d * 100\<bar> / 2 ^ 53"
    by (rule toDouble_error)
  have "\<bar>?x\<bar> / 2 ^ 53 \<le> \<bar>?x\<bar> / 1"
    by (intro divide_left_mono) simp_all
  with e1 have d: "\<bar>?d\<bar> \<le> 2 * \<bar>?x\<bar>"
    by linarith
  have "\<bar>?d * 100\<bar> / 2 ^ 53 = 100 * \<bar>?d\<bar> / 2 ^ 53"
    by (subst abs_mult) simp
  also have "\<dots> \<le> 200 * \<bar>?x\<bar> / 2 ^ 53"
    using d by (simp add: divide_right_mono)
  finally have e3: "\<bar>?z - ?d * 100\<bar> \<le> 200 * \<bar>?x\<bar> / 2 ^ 53"
    using e2 by linarith
  have "?z - 100 * ?x = (?z - ?d * 100) + 100 * (?d - ?x)"
    by (simp add: algebra_simps)
  then have "\<bar>?z - 100 * ?x\<bar> \<le> \<bar>?z - ?d * 100\<bar> + \<bar>100 * (?d - ?x)\<bar>"
    by (simp only: abs_triangle_ineq)
  also have "\<dots> = \<bar>?z - ?d * 100\<bar> + 100 * \<bar>?d - ?x\<bar>"
    by (subst abs_mult) simp
  also have "\<dots> \<le> 200 * \<bar>?x\<bar> / 2 ^ 53 + 100 * (\<bar>?x\<bar> / 2 ^ 53)"
    using e1 e3 by (intro add_mono mult_left_mono) simp_all
  also have "\<dots> = (300 * of_int \<bar>c\<bar> / 2 ^ 53) / of_int q"
    using Q by (simp add: abs_divide field_simps)
  finally have b: "\<bar>?z - 100 * ?x\<bar> \<le> (300 * of_int \<bar>c\<bar> / 2 ^ 53) / of_int q" .
  have "600 * \<bar>c\<bar> < 2 ^ 53"
    using c by simp
  then have "(of_int (600 * \<bar>c\<bar>) :: rat) < of_int (2 ^ 53)"
    by (simp only: of_int_less_iff)
  then have "(300 * of_int \<bar>c\<bar> / 2 ^ 53 :: rat) < 1 / 2"
    by simp
  then have "(300 * of_int \<bar>c\<bar> / 2 ^ 53) / of_int q < (1 / 2) / (of_int q :: rat)"
    using Q by (rule divide_strict_right_mono)
  with b have "\<bar>?z - 100 * ?x\<bar> < 1 / (2 * of_int q)"
    by simp
  then show ?thesis
    by (simp add: timesDouble_def divideDouble_def)
qed

text \<open>The quotient of doubles that gives the time per card rounds as the exact quotient does.\<close>

lemma quotient_rounds_exactly:
  fixes t q :: int
  assumes q: "0 < q" and t: "\<bar>t\<bar> < 2 ^ 52"
  shows "Math_round (divideDouble (of_int t) (of_int q)) = \<lfloor>(of_int t / of_int q :: rat) + 1 / 2\<rfloor>"
proof (cases "frac (of_int t / of_int q :: rat) = 1 / 2")
  case True
  let ?x = "of_int t / of_int q :: rat"
  define m where "m = 2 * \<lfloor>?x\<rfloor> + 1"
  have x: "?x = of_int m / 2"
    using True by (simp add: frac_def m_def field_simps)
  have "m \<noteq> 0"
    unfolding m_def by presburger
  have Q: "1 \<le> (of_int q :: rat)"
    using q by simp
  have "\<bar>?x\<bar> = of_int \<bar>t\<bar> / of_int q"
    using q by (simp add: abs_divide)
  also have "\<dots> \<le> of_int \<bar>t\<bar> / 1"
    using Q by (intro divide_left_mono) simp_all
  also have "\<dots> < of_int (2 ^ 52)"
    using t by (simp only: of_int_less_iff div_by_1)
  finally have "\<bar>of_int m / 2 :: rat\<bar> < 2 ^ 52"
    by (simp add: x)
  then have "(of_int \<bar>m\<bar> :: rat) < of_int (2 ^ 53)"
    by simp
  then have "\<bar>m\<bar> < 2 ^ 53"
    by (simp only: of_int_less_iff)
  with \<open>m \<noteq> 0\<close> have "toDouble (of_int m / 2) = of_int m / 2"
    by (rule toDouble_halves)
  then have "toDouble ?x = ?x"
    by (simp only: x)
  then show ?thesis
    by (simp only: Math_round_def divideDouble_def)
next
  case False
  let ?x = "of_int t / of_int q :: rat"
  have Q: "0 < (of_int q :: rat)"
    using q by simp
  have "\<bar>toDouble ?x - ?x\<bar> \<le> \<bar>?x\<bar> / 2 ^ 53"
    by (rule toDouble_error)
  also have "\<dots> = (of_int \<bar>t\<bar> / 2 ^ 53) / of_int q"
    using q by (simp add: abs_divide)
  also have "\<dots> < (1 / 2) / of_int q"
  proof -
    have "2 * \<bar>t\<bar> < 2 ^ 53"
      using t by simp
    then have "(of_int (2 * \<bar>t\<bar>) :: rat) < of_int (2 ^ 53)"
      by (simp only: of_int_less_iff)
    then have "(of_int \<bar>t\<bar> / 2 ^ 53 :: rat) < 1 / 2"
      by simp
    then show ?thesis
      using Q by (rule divide_strict_right_mono)
  qed
  finally have "\<bar>toDouble ?x - ?x\<bar> < 1 / (2 * of_int q)"
    by simp
  from round_same_as_fraction [OF q this False] show ?thesis
    by (simp add: Math_round_def divideDouble_def)
qed

section \<open>Properties of the aggregation\<close>

lemma foldl_plus_sum_list:
  "foldl (\<lambda>sum s. sum + g s) a xs = (a::int) + sum_list (map g xs)"
  by (induction xs arbitrary: a) simp_all

lemma reduceSum_sum_list:
  "reduceSum f sessions = (\<Sum>s\<leftarrow>sessions. orZero (f s))"
  by (simp add: reduceSum_def foldl_plus_sum_list)

text \<open>
  C1, as amended. Take a list of sessions whose question counts are not negative, an absent field counting
  as 0, and let \<open>q\<close>, \<open>c\<close>, \<open>t\<close> and \<open>k\<close> be the sums of \<^verbatim>\<open>totalQuestions\<close>, \<^verbatim>\<open>correctAnswers\<close>,
  \<^verbatim>\<open>totalTime\<close> and \<^verbatim>\<open>skipped\<close>, with \<open>c\<close> below \<open>2^43\<close> and \<open>t\<close> below \<open>2^52\<close> in absolute value.
  The cards reviewed are \<open>q\<close> and the cards skipped are \<open>k\<close>. When \<open>q\<close> is 0 the accuracy and the
  time per card are 0. Otherwise the time per card is the exact quotient \<open>t / q\<close> rounded to
  the nearest integer, a tie going up; the accuracy is an integer nearest to the exact
  percentage \<open>100 * c / q\<close>, and it is that percentage rounded with a tie going up unless the
  percentage lies half-way between two integers. For a percentage half-way between two
  integers the doubles decide which of the two neighbours is returned.
\<close>

theorem calculateOverallStats_nearest:
  assumes "\<forall>s\<in>set sessions. 0 \<le> orZero (totalQuestions s)"
  defines "q \<equiv> (\<Sum>s\<leftarrow>sessions. orZero (totalQuestions s))"
      and "c \<equiv> (\<Sum>s\<leftarrow>sessions. orZero (correctAnswers s))"
      and "t \<equiv> (\<Sum>s\<leftarrow>sessions. orZero (totalTime s))"
      and "k \<equiv> (\<Sum>s\<leftarrow>sessions. orZero (skipped s))"
  assumes "\<bar>c\<bar> < 2 ^ 43" and "\<bar>t\<bar> < 2 ^ 52"
  shows "totalCards (calculateOverallStats sessions) = q
       \<and> skippedCards (calculateOverallStats sessions) = k
       \<and> (q = 0 \<longrightarrow> accuracy (calculateOverallStats sessions) = 0)
       \<and> (q \<noteq> 0 \<longrightarrow>
            \<bar>of_int (accuracy (calculateOverallStats sessions)) - of_int (100 * c) / of_int q\<bar>
              \<le> (1 / 2 :: rat))
       \<and> (q \<noteq> 0 \<and> frac (of_int (100 * c) / of_int q :: rat) \<noteq> 1 / 2 \<longrightarrow>
            accuracy (calculateOverallStats sessions)
              = \<lfloor>(of_int (100 * c) / of_int q :: rat) + 1 / 2\<rfloor>)
       \<and> avgTimePerCard (calculateOverallStats sessions)
           = (if q = 0 then 0 else \<lfloor>(of_int t / of_int q :: rat) + 1 / 2\<rfloor>)"
proof (cases sessions)
  case Nil
  then show ?thesis
    by (simp add: calculateOverallStats_def q_def k_def)
next
  case (Cons s rest)
  have "0 \<le> q"
    using assms(1) unfolding q_def by (auto intro!: sum_list_nonneg)
  then have pos: "0 < q \<longleftrightarrow> q \<noteq> 0"
    by auto
  from Cons have ne: "length sessions \<noteq> 0"
    by simp
  let ?z = "timesDouble (divideDouble (of_int c) (of_int q)) 100"
  have cards: "totalCards (calculateOverallStats sessions) = q"
    using ne by (simp add: calculateOverallStats_def Let_def reduceSum_sum_list q_def)
  have skips: "skippedCards (calculateOverallStats sessions) = k"
    using ne by (simp add: calculateOverallStats_def Let_def reduceSum_sum_list k_def)
  have acc: "accuracy (calculateOverallStats sessions) = (if q = 0 then 0 else Math_round ?z)"
    using ne pos
    by (simp add: calculateOverallStats_def Let_def reduceSum_sum_list
                  q_def [symmetric] c_def [symmetric])
  have avg: "avgTimePerCard (calculateOverallStats sessions)
             = (if q = 0 then 0 else Math_round (divideDouble (of_int t) (of_int q)))"
    using ne pos
    by (simp add: calculateOverallStats_def Let_def reduceSum_sum_list
                  q_def [symmetric] t_def [symmetric])
  show ?thesis
  proof (cases "q = 0")
    case True
    then show ?thesis
      using cards skips acc avg by simp
  next
    case False
    with pos have q: "0 < q"
      by simp
    have near: "\<bar>?z - of_int (100 * c) / of_int q\<bar> < 1 / (2 * of_int q)"
      using q assms(6) by (rule percentage_error)
    have a1: "\<bar>of_int (Math_round ?z) - (of_int (100 * c) / of_int q :: rat)\<bar> \<le> 1 / 2"
      unfolding Math_round_def using q near by (rule round_near_fraction)
    have a2: "Math_round ?z = \<lfloor>(of_int (100 * c) / of_int q :: rat) + 1 / 2\<rfloor>"
      if "frac (of_int (100 * c) / of_int q :: rat) \<noteq> 1 / 2"
      unfolding Math_round_def using q near that by (rule round_same_as_fraction)
    have a3: "Math_round (divideDouble (of_int t) (of_int q))
              = \<lfloor>(of_int t / of_int q :: rat) + 1 / 2\<rfloor>"
      using q assms(7) by (rule quotient_rounds_exactly)
    from False cards skips a1 a2 a3 show ?thesis
      by (simp only: acc avg if_False) blast
  qed
qed

text \<open>
  The two sessions of the specification, 8 of 10 in 100 seconds and 5 of 5 in 50 seconds:
  the exact percentage \<open>1300 / 15\<close> is not half-way between two integers, so the accuracy is
  87; there are 10 seconds per card and 15 cards. A session of 1 of 3 in 10 seconds, with 2
  cards skipped: the percentage \<open>100 / 3\<close> and the quotient \<open>10 / 3\<close> are rounded down, to 33 and
  to 3.
\<close>

theorem calculateOverallStats_nearest_witness:
  "0 \<le> orZero (totalQuestions
         \<lparr>category = None, totalQuestions = Some 10, correctAnswers = Some 8,
           skipped = None, totalTime = Some 100, timestamp = None, createdAt = None\<rparr>)
   \<and> 0 \<le> orZero (totalQuestions
         \<lparr>category = None, totalQuestions = Some 5, correctAnswers = Some 5,
           skipped = None, totalTime = Some 50, timestamp = None, createdAt = None\<rparr>)
   \<and> \<bar>\<Sum>s\<leftarrow>[\<lparr>category = None, totalQuestions = Some 10, correctAnswers = Some 8,
           skipped = None, totalTime = Some 100, timestamp = None, createdAt = None\<rparr>,
          \<lparr>category = None, totalQuestions = Some 5, correctAnswers = Some 5,
           skipped = None, totalTime = Some 50, timestamp = None, createdAt = None\<rparr>].
          orZero (correctAnswers s)\<bar> < 2 ^ 43
   \<and> \<bar>\<Sum>s\<leftarrow>[\<lparr>category = None, totalQuestions = Some 10, correctAnswers = Some 8,
           skipped = None, totalTime = Some 100, timestamp = None, createdAt = None\<rparr>,
          \<lparr>category = None, totalQuestions = Some 5, correctAnswers = Some 5,
           skipped = None, totalTime = Some 50, timestamp = None, createdAt = None\<rparr>].
          orZero (totalTime s)\<bar> < 2 ^ 52
   \<and> calculateOverallStats
        [\<lparr>category = None, totalQuestions = Some 10, correctAnswers = Some 8,
           skipped = None, totalTime = Some 100, timestamp = None, createdAt = None\<rparr>,
         \<lparr>category = None, totalQuestions = Some 5, correctAnswers = Some 5,
           skipped = None, totalTime = Some 50, timestamp = None, createdAt = None\<rparr>]
      = \<lparr>accuracy = 87, avgTimePerCard = 10, totalCards = 15, skippedCards = 0\<rparr>
   \<and> 0 \<le> orZero (totalQuestions
         \<lparr>category = None, totalQuestions = Some 3, correctAnswers = Some 1,
           skipped = Some 2, totalTime = Some 10, timestamp = None, createdAt = None\<rparr>)
   \<and> \<bar>\<Sum>s\<leftarrow>[\<lparr>category = None, totalQuestions = Some 3, correctAnswers = Some 1,
           skipped = Some 2, totalTime = Some 10, timestamp = None, createdAt = None\<rparr>].
          orZero (correctAnswers s)\<bar> < 2 ^ 43
   \<and> \<bar>\<Sum>s\<leftarrow>[\<lparr>category = None, totalQuestions = Some 3, correctAnswers = Some 1,
           skipped = Some 2, totalTime = Some 10, timestamp = None, createdAt = None\<rparr>].
          orZero (totalTime s)\<bar> < 2 ^ 52
   \<and> calculateOverallStats
        [\<lparr>category = None, totalQuestions = Some 3, correctAnswers = Some 1,
           skipped = Some 2, totalTime = Some 10, timestamp = None, createdAt = None\<rparr>]
      = \<lparr>accuracy = 33, avgTimePerCard = 3, totalCards = 3, skippedCards = 2\<rparr>"
proof -
  let ?xs = "[\<lparr>category = None, totalQuestions = Some 10, correctAnswers = Some 8,
           skipped = None, totalTime = Some 100, timestamp = None, createdAt = None\<rparr>,
         \<lparr>category = None, totalQuestions = Some 5, correctAnswers = Some 5,
           skipped = None, totalTime = Some 50, timestamp = None, createdAt = None\<rparr>]"
  let ?ys = "[\<lparr>category = None, totalQuestions = Some 3, correctAnswers = Some 1,
           skipped = Some 2, totalTime = Some 10, timestamp = None, createdAt = None\<rparr>]"
  have h: "\<forall>s\<in>set ?xs. 0 \<le> orZero (totalQuestions s)"
    by (simp add: orZero_def)
  have hc: "\<bar>\<Sum>s\<leftarrow>?xs. orZero (correctAnswers s)\<bar> < 2 ^ 43"
    by (simp add: orZero_def)
  have ht: "\<bar>\<Sum>s\<leftarrow>?xs. orZero (totalTime s)\<bar> < 2 ^ 52"
    by (simp add: orZero_def)
  have r0: "frac (of_int 1300 / of_int 15 :: rat) \<noteq> 1 / 2"
    by code_simp
  have r1: "\<lfloor>(of_int 1300 / of_int 15 :: rat) + 1 / 2\<rfloor> = 87"
    by code_simp
  have r2: "\<lfloor>(of_int 150 / of_int 15 :: rat) + 1 / 2\<rfloor> = 10"
    by code_simp
  from calculateOverallStats_nearest [OF h hc ht]
  have "totalCards (calculateOverallStats ?xs) = 15
      \<and> skippedCards (calculateOverallStats ?xs) = 0
      \<and> accuracy (calculateOverallStats ?xs) = 87
      \<and> avgTimePerCard (calculateOverallStats ?xs) = 10"
    using r0 r1 r2 by (simp add: orZero_def)
  then have x: "calculateOverallStats ?xs
                = \<lparr>accuracy = 87, avgTimePerCard = 10, totalCards = 15, skippedCards = 0\<rparr>"
    by (cases "calculateOverallStats ?xs") simp
  have g: "\<forall>s\<in>set ?ys. 0 \<le> orZero (totalQuestions s)"
    by (simp add: orZero_def)
  have gc: "\<bar>\<Sum>s\<leftarrow>?ys. orZero (correctAnswers s)\<bar> < 2 ^ 43"
    by (simp add: orZero_def)
  have gt: "\<bar>\<Sum>s\<leftarrow>?ys. orZero (totalTime s)\<bar> < 2 ^ 52"
    by (simp add: orZero_def)
  have q0: "frac (of_int 100 / of_int 3 :: rat) \<noteq> 1 / 2"
    by code_simp
  have q1: "\<lfloor>(of_int 100 / of_int 3 :: rat) + 1 / 2\<rfloor> = 33"
    by code_simp
  have q2: "\<lfloor>(of_int 10 / of_int 3 :: rat) + 1 / 2\<rfloor> = 3"
    by code_simp
  from calculateOverallStats_nearest [OF g gc gt]
  have "totalCards (calculateOverallStats ?ys) = 3
      \<and> skippedCards (calculateOverallStats ?ys) = 2
      \<and> accuracy (calculateOverallStats ?ys) = 33
      \<and> avgTimePerCard (calculateOverallStats ?ys) = 3"
    using q0 q1 q2 by (simp add: orZero_def)
  then have y: "calculateOverallStats ?ys
                = \<lparr>accuracy = 33, avgTimePerCard = 3, totalCards = 3, skippedCards = 2\<rparr>"
    by (cases "calculateOverallStats ?ys") simp
  from h hc ht x g gc gt y show ?thesis
    by simp
qed

text \<open>
  23 correct answers of 40. The quotient of doubles is \<open>5179139571476070 / 2^53\<close>, a little
  below \<open>23 / 40\<close>; its product with 100 is the double \<open>8092405580431359 / 2^47\<close>, which is
  57.49999999999999 and rounds to 57. The exact percentage is 57.5, which rounds to 58.
\<close>

lemma double_23_of_40:
  "divideDouble 23 40 = 5179139571476070 / 2 ^ 53"
  by code_simp

lemma double_23_of_40_times_100:
  "timesDouble (5179139571476070 / 2 ^ 53) 100 = 8092405580431359 / 2 ^ 47"
  by code_simp

lemma round_23_of_40_times_100:
  "Math_round (8092405580431359 / 2 ^ 47) = 57"
  by code_simp

lemma exact_23_of_40:
  "\<lfloor>(of_int 23 / of_int 40 :: rat) * 100 + 1 / 2\<rfloor> = 58"
  by code_simp

theorem calculateOverallStats_half_way_counterexample:
  "accuracy (calculateOverallStats
      [\<lparr>category = None, totalQuestions = Some 40, correctAnswers = Some 23,
        skipped = None, totalTime = Some 120, timestamp = None, createdAt = None\<rparr>]) = 57
   \<and> \<lfloor>(of_int 23 / of_int 40 :: rat) * 100 + 1 / 2\<rfloor> = 58"
proof -
  have "Math_round (timesDouble (divideDouble 23 40) 100) = 57"
    by (simp only: double_23_of_40 double_23_of_40_times_100 round_23_of_40_times_100)
  then have "accuracy (calculateOverallStats
      [\<lparr>category = None, totalQuestions = Some 40, correctAnswers = Some 23,
        skipped = None, totalTime = Some 120, timestamp = None, createdAt = None\<rparr>]) = 57"
    by (simp add: calculateOverallStats_def Let_def reduceSum_def orZero_def)
  with exact_23_of_40 show ?thesis
    by (simp only: simp_thms)
qed

text \<open>
  C5. The empty list of sessions gives the statistics 0, 0, 0, 0. The function takes neither
  a period nor a category, so this holds for each of them.
\<close>

theorem calculateOverallStats_empty:
  "calculateOverallStats [] = \<lparr>accuracy = 0, avgTimePerCard = 0, totalCards = 0, skippedCards = 0\<rparr>"
  by (simp add: calculateOverallStats_def)

text \<open>
  C10. A list of sessions that is not empty and whose question counts sum to 0 gives an
  accuracy of 0 and a time per card of 0, whatever the answers and the times are.
\<close>

theorem calculateOverallStats_no_questions:
  assumes "sessions \<noteq> []"
      and "(\<Sum>s\<leftarrow>sessions. orZero (totalQuestions s)) = 0"
  shows "accuracy (calculateOverallStats sessions) = 0
       \<and> avgTimePerCard (calculateOverallStats sessions) = 0"
  using assms by (simp add: calculateOverallStats_def Let_def reduceSum_sum_list)

text \<open>A session without questions that reports 3 correct answers and 40 seconds.\<close>

theorem calculateOverallStats_no_questions_witness:
  "[\<lparr>category = None, totalQuestions = None, correctAnswers = Some 3, skipped = None,
      totalTime = Some 40, timestamp = None, createdAt = None\<rparr>] \<noteq> []
   \<and> (\<Sum>s\<leftarrow>[\<lparr>category = None, totalQuestions = None, correctAnswers = Some 3, skipped = None,
              totalTime = Some 40, timestamp = None, createdAt = None\<rparr>].
        orZero (totalQuestions s)) = 0
   \<and> accuracy (calculateOverallStats
        [\<lparr>category = None, totalQuestions = None, correctAnswers = Some 3, skipped = None,
           totalTime = Some 40, timestamp = None, createdAt = None\<rparr>]) = 0
   \<and> avgTimePerCard (calculateOverallStats
        [\<lparr>category = None, totalQuestions = None, correctAnswers = Some 3, skipped = None,
           totalTime = Some 40, timestamp = None, createdAt = None\<rparr>]) = 0"
proof -
  let ?xs = "[\<lparr>category = None, totalQuestions = None, correctAnswers = Some 3, skipped = None,
                totalTime = Some 40, timestamp = None, createdAt = None\<rparr>]"
  have h1: "?xs \<noteq> []"
    by simp
  have h2: "(\<Sum>s\<leftarrow>?xs. orZero (totalQuestions s)) = 0"
    by (simp add: orZero_def)
  from calculateOverallStats_no_questions [OF h1 h2] h1 h2 show ?thesis
    by blast
qed

section \<open>Properties of the week buckets\<close>

lemma Day_local_of_day:
  assumes "0 \<le> r" "r < msPerDay"
  shows "Day (LocalTime tz (UTC tz (n * msPerDay + r))) = n"
proof -
  have "(n * msPerDay + r) div msPerDay = n"
    using assms by (simp add: msPerDay_def div_pos_pos_trivial)
  then show ?thesis
    by (simp add: Day_def LocalTime_def UTC_def)
qed

lemma MonthFromDay_range: "0 \<le> MonthFromDay n \<and> MonthFromDay n < 12"
  by (simp add: MonthFromDay_def Let_def)

lemma MakeDay_shift:
  "MakeDay (YearFromDay n) (MonthFromDay n) (DateFromDay n + i) = n + i"
proof -
  have "MonthFromDay n div 12 = 0" "MonthFromDay n mod 12 = MonthFromDay n"
    using MonthFromDay_range [of n] by (simp_all add: div_pos_pos_trivial)
  then show ?thesis
    by (simp add: MakeDay_def DateFromDay_def DayWithinYear_def)
qed

lemma setDate_shift:
  "setDate tz (Some t) (map_option (\<lambda>d. d + i) (getDate tz (Some t)))
   = Some (UTC tz ((Day (LocalTime tz t) + i) * msPerDay + LocalTime tz t mod msPerDay))"
  by (simp add: setDate_def getDate_def Let_def MakeDay_shift)

lemma setHours_of_day:
  assumes "0 \<le> r" "r < msPerDay"
  shows "setHours tz (Some (UTC tz (n * msPerDay + r))) h m s ms
         = Some (UTC tz (n * msPerDay + (h * 3600000 + m * 60000 + s * 1000 + ms)))"
  using assms by (simp add: setHours_def Day_local_of_day)

lemma localDateKey_of_day:
  "localDateKey tz (Some (UTC tz (n * msPerDay))) = dayKey n"
  using Day_local_of_day [of 0 tz n]
  by (simp add: localDateKey_def dayKey_def getFullYear_def getMonth_def getDate_def msPerDay_def)

lemma labelWeekdayMonthDay_of_day:
  "labelWeekdayMonthDay tz (Some (UTC tz (n * msPerDay))) = dayLabel n"
  using Day_local_of_day [of 0 tz n]
  by (simp add: labelWeekdayMonthDay_def dayLabel_def msPerDay_def)

lemma weekDayBucket_dayBucket:
  "weekDayBucket tz (Some t) i = dayBucket tz (Day (LocalTime tz t) + i)"
proof -
  let ?n = "Day (LocalTime tz t) + i"
  have r: "0 \<le> LocalTime tz t mod msPerDay" "LocalTime tz t mod msPerDay < msPerDay"
    by (simp_all add: msPerDay_def)
  have s: "setHours tz (setDate tz (Some t) (map_option (\<lambda>d. d + i) (getDate tz (Some t)))) 0 0 0 0
           = Some (UTC tz (?n * msPerDay))"
    using setHours_of_day [OF r, of tz ?n 0 0 0 0] by (simp add: setDate_shift)
  have e: "setHours tz (Some (UTC tz (?n * msPerDay))) 23 59 59 999
           = Some (UTC tz (?n * msPerDay + 86399999))"
    using setHours_of_day [of 0 tz ?n 23 59 59 999] by (simp add: msPerDay_def)
  show ?thesis
    by (simp add: weekDayBucket_def Let_def s e dayBucket_def localDateKey_of_day
                  labelWeekdayMonthDay_of_day)
qed

lemma earliest_fold:
  assumes "\<forall>s\<in>set xs. sessionDate s \<noteq> None"
  shows "foldl (\<lambda>earliest session.
                  if date_lt (sessionDate session) earliest then sessionDate session else earliest)
               (Some a) xs
         = Some (Min (insert a ((the \<circ> sessionDate) ` set xs)))"
  using assms
proof (induction xs arbitrary: a)
  case Nil
  then show ?case by simp
next
  case (Cons x xs)
  from Cons.prems obtain b where b: "sessionDate x = Some b"
    by auto
  have fin: "finite ((the \<circ> sessionDate) ` set xs)"
    by simp
  have m: "Min (insert (min a b) ((the \<circ> sessionDate) ` set xs))
           = Min (insert a (insert b ((the \<circ> sessionDate) ` set xs)))"
  proof (cases "(the \<circ> sessionDate) ` set xs = {}")
    case True
    then show ?thesis by simp
  next
    case False
    then show ?thesis using fin by (simp add: min.assoc)
  qed
  show ?case
    using Cons.IH [of "min a b"] Cons.prems b m
    by (auto simp: date_lt_def min_def)
qed

text \<open>
  C2. In the week mode, a list of sessions that is not empty and whose time stamps can all be
  read gives exactly 8 buckets: the one-day buckets of the local day of the earliest time
  stamp and of the 7 days that follow it. The current date, \<open>now\<close>, has no part in the result.
\<close>

theorem getChartDateRange_week_buckets:
  assumes "sessions \<noteq> []"
      and "\<forall>s\<in>set sessions. sessionDate s \<noteq> None"
  defines "minTimestamp \<equiv> Min ((the \<circ> sessionDate) ` set sessions)"
  shows "getChartDateRange_week tz now sessions
           = map (\<lambda>i. dayBucket tz (Day (LocalTime tz minTimestamp) + int i)) [0..<8]
       \<and> length (getChartDateRange_week tz now sessions) = 8
       \<and> getChartDateRange_week tz now sessions = getChartDateRange_week tz now' sessions"
proof -
  from assms(1) obtain s0 rest where sr: "sessions = s0 # rest"
    by (cases sessions) auto
  from assms(2) sr obtain a where a: "sessionDate s0 = Some a"
    by auto
  have "a \<in> (the \<circ> sessionDate) ` set sessions"
    using sr a by force
  then have "insert a ((the \<circ> sessionDate) ` set sessions) = (the \<circ> sessionDate) ` set sessions"
    by blast
  then have e: "earliestSession s0 (s0 # rest) = Some minTimestamp"
    using earliest_fold [OF assms(2), of a]
    by (simp add: earliestSession_def a minTimestamp_def sr)
  have "getChartDateRange_week tz t (s0 # rest)
        = map (\<lambda>i. weekDayBucket tz (earliestSession s0 (s0 # rest)) (int i)) [0..<8]" for t
    by (simp add: getChartDateRange_week_def)
  then have w: "getChartDateRange_week tz t sessions
                = map (\<lambda>i. dayBucket tz (Day (LocalTime tz minTimestamp) + int i)) [0..<8]" for t
    by (simp only: e weekDayBucket_dayBucket sr)
  have "length (getChartDateRange_week tz now sessions) = 8"
    by (simp only: w length_map length_upt)
  then show ?thesis
    using w [of now] w [of now'] by simp
qed

text \<open>
  Two sessions, of 5 March 2025 10:00 and of 3 March 2025 16:30 in GMT+8, seen on
  3 November 2026: the 8 buckets are those of 3 March to 10 March 2025.
\<close>

theorem getChartDateRange_week_buckets_witness:
  "[\<lparr>category = None, totalQuestions = None, correctAnswers = None, skipped = None,
      totalTime = None, timestamp = Some (EpochMs 1741140000000), createdAt = None\<rparr>,
     \<lparr>category = None, totalQuestions = None, correctAnswers = None, skipped = None,
      totalTime = None, timestamp = Some (IsoString 1740990600000), createdAt = None\<rparr>] \<noteq> []
   \<and> sessionDate \<lparr>category = None, totalQuestions = None, correctAnswers = None,
        skipped = None, totalTime = None, timestamp = Some (EpochMs 1741140000000),
        createdAt = None\<rparr> \<noteq> None
   \<and> sessionDate \<lparr>category = None, totalQuestions = None, correctAnswers = None,
        skipped = None, totalTime = None, timestamp = Some (IsoString 1740990600000),
        createdAt = None\<rparr> \<noteq> None
   \<and> getChartDateRange_week 28800000 1793664000000
        [\<lparr>category = None, totalQuestions = None, correctAnswers = None, skipped = None,
           totalTime = None, timestamp = Some (EpochMs 1741140000000), createdAt = None\<rparr>,
         \<lparr>category = None, totalQuestions = None, correctAnswers = None, skipped = None,
           totalTime = None, timestamp = Some (IsoString 1740990600000), createdAt = None\<rparr>]
       = [\<lparr>key = ''2025-03-03'', label = ''Mon, Mar 3'',
            start = Some 1740931200000, finish = Some 1741017599999\<rparr>,
          \<lparr>key = ''2025-03-04'', label = ''Tue, Mar 4'',
            start = Some 1741017600000, finish = Some 1741103999999\<rparr>,
          \<lparr>key = ''2025-03-05'', label = ''Wed, Mar 5'',
            start = Some 1741104000000, finish = Some 1741190399999\<rparr>,
          \<lparr>key = ''2025-03-06'', label = ''Thu, Mar 6'',
            start = Some 1741190400000, finish = Some 1741276799999\<rparr>,
          \<lparr>key = ''2025-03-07'', label = ''Fri, Mar 7'',
            start = Some 1741276800000, finish = Some 1741363199999\<rparr>,
          \<lparr>key = ''2025-03-08'', label = ''Sat, Mar 8'',
            start = Some 1741363200000, finish = Some 1741449599999\<rparr>,
          \<lparr>key = ''2025-03-09'', label = ''Sun, Mar 9'',
            start = Some 1741449600000, finish = Some 1741535999999\<rparr>,
          \<lparr>key = ''2025-03-10'', label = ''Mon, Mar 10'',
            start = Some 1741536000000, finish = Some 1741622399999\<rparr>]"
proof -
  let ?a = "\<lparr>category = None, totalQuestions = None, correctAnswers = None, skipped = None,
             totalTime = None, timestamp = Some (EpochMs 1741140000000), createdAt = None\<rparr>"
  let ?b = "\<lparr>category = None, totalQuestions = None, correctAnswers = None, skipped = None,
             totalTime = None, timestamp = Some (IsoString 1740990600000), createdAt = None\<rparr>"
  have da: "sessionDate ?a = Some 1741140000000"
    by (simp add: sessionDate_def timestampOrCreatedAt_def isTruthy_def new_Date_def)
  have db: "sessionDate ?b = Some 1740990600000"
    by (simp add: sessionDate_def timestampOrCreatedAt_def isTruthy_def new_Date_def)
  have h1: "[?a, ?b] \<noteq> []"
    by simp
  have h2: "\<forall>s\<in>set [?a, ?b]. sessionDate s \<noteq> None"
    using da db by simp
  have mn: "Day (LocalTime 28800000 (Min ((the \<circ> sessionDate) ` set [?a, ?b]))) = 20150"
    using da db by (simp add: Day_def LocalTime_def msPerDay_def)
  have u: "[0..<8] = [0, 1, 2, 3, 4, 5, 6, 7]"
    by code_simp
  have y: "YearFromDay 20150 = 2025" "YearFromDay 20151 = 2025" "YearFromDay 20152 = 2025"
          "YearFromDay 20153 = 2025" "YearFromDay 20154 = 2025" "YearFromDay 20155 = 2025"
          "YearFromDay 20156 = 2025" "YearFromDay 20157 = 2025"
    by code_simp+
  have m: "MonthFromDay 20150 = 2" "MonthFromDay 20151 = 2" "MonthFromDay 20152 = 2"
          "MonthFromDay 20153 = 2" "MonthFromDay 20154 = 2" "MonthFromDay 20155 = 2"
          "MonthFromDay 20156 = 2" "MonthFromDay 20157 = 2"
    by code_simp+
  have d: "DateFromDay 20150 = 3" "DateFromDay 20151 = 4" "DateFromDay 20152 = 5"
          "DateFromDay 20153 = 6" "DateFromDay 20154 = 7" "DateFromDay 20155 = 8"
          "DateFromDay 20156 = 9" "DateFromDay 20157 = 10"
    by code_simp+
  have "getChartDateRange_week 28800000 1793664000000 [?a, ?b]
        = map (\<lambda>i. dayBucket 28800000 (20150 + int i)) [0, 1, 2, 3, 4, 5, 6, 7]"
    using getChartDateRange_week_buckets [OF h1 h2, of 28800000 1793664000000 0]
    by (simp only: mn u)
  then show ?thesis
    using da db
    by (simp add: dayBucket_def dayKey_def dayLabel_def y m d UTC_def msPerDay_def WeekDay_def
                  weekdayShort_def monthShort_def String_of_def padStart2_def digits.simps
                  digitChar_def)
qed

section \<open>Properties of the grouping\<close>

lemma emptyBuckets_fold:
  "foldl (\<lambda>m dr. m(key dr \<mapsto> [])) m0 drs k
   = (if k \<in> key ` set drs then Some [] else m0 k)"
  by (induction drs arbitrary: m0) auto

lemma emptyBuckets_eq:
  "emptyBuckets dateRange = (\<lambda>k. if k \<in> key ` set dateRange then Some [] else None)"
  by (rule ext) (simp add: emptyBuckets_def emptyBuckets_fold)

lemma firstBucketKey_in_keys:
  "firstBucketKey s drs = Some k \<Longrightarrow> k \<in> key ` set drs"
  by (induction drs) (auto simp: firstBucketKey_def split: if_splits)

lemma pushIntoFirst_eq:
  assumes "key ` set drs \<subseteq> K"
  shows "pushIntoFirst (\<lambda>k. if k \<in> K then Some (f k) else None) s drs
         = Inr (\<lambda>k. if k \<in> K
                     then Some (f k @ (if firstBucketKey s drs = Some k then [s] else []))
                     else None)"
  using assms
proof (induction drs)
  case Nil
  then show ?case
    by (simp add: firstBucketKey_def cong: if_cong)
next
  case (Cons dr drs)
  show ?case
  proof (cases "inBucket s dr")
    case True
    with Cons.prems show ?thesis
      by (auto simp: firstBucketKey_def fun_eq_iff)
  next
    case False
    with Cons show ?thesis
      by (simp add: firstBucketKey_def cong: if_cong)
  qed
qed

lemma groupLoop_eq:
  "groupLoop (\<lambda>k. if k \<in> key ` set drs then Some (f k) else None) xs drs
   = Inr (\<lambda>k. if k \<in> key ` set drs
               then Some (f k @ [s \<leftarrow> xs. firstBucketKey s drs = Some k])
               else None)"
proof (induction xs arbitrary: f)
  case Nil
  then show ?case by (simp cong: if_cong)
next
  case (Cons x xs)
  have p: "pushIntoFirst (\<lambda>k. if k \<in> key ` set drs then Some (f k) else None) x drs
           = Inr (\<lambda>k. if k \<in> key ` set drs
                       then Some (f k @ (if firstBucketKey x drs = Some k then [x] else []))
                       else None)"
    by (rule pushIntoFirst_eq) simp
  show ?case
    using Cons.IH [of "\<lambda>k. f k @ (if firstBucketKey x drs = Some k then [x] else [])"]
    by (auto simp: p fun_eq_iff)
qed

lemma sum_mset_filter_by_key:
  assumes "finite K"
  shows "(\<Sum>k\<in>K. mset [s \<leftarrow> xs. g s = Some k]) = mset [s \<leftarrow> xs. g s \<in> Some ` K]"
proof (induction xs)
  case Nil
  then show ?case by simp
next
  case (Cons x xs)
  have "(\<Sum>k\<in>K. mset [s \<leftarrow> x # xs. g s = Some k])
        = (\<Sum>k\<in>K. (if g x = Some k then {#x#} else {#})) + (\<Sum>k\<in>K. mset [s \<leftarrow> xs. g s = Some k])"
    by (simp add: sum.distrib [symmetric]) (rule sum.cong, auto)
  moreover have "(\<Sum>k\<in>K. (if g x = Some k then {#x#} else {#}))
                 = (if g x \<in> Some ` K then {#x#} else {#})"
  proof (cases "g x")
    case None
    then show ?thesis by auto
  next
    case (Some k0)
    have "(\<Sum>k\<in>K. (if Some k0 = Some k then {#x#} else {#}))
          = (\<Sum>k\<in>K. (if k0 = k then {#x#} else {#}))"
      by simp
    also have "\<dots> = (if k0 \<in> K then {#x#} else {#})"
      using assms by (simp add: sum.delta')
    finally show ?thesis
      using Some by auto
  qed
  ultimately show ?case
    using Cons.IH by simp
qed

text \<open>
  C4. Grouping never fails. Under each key of the bucket list it puts, in the order of the
  input, exactly the sessions whose first bucket in the order of the list has that key, a
  bucket holding a session when the date of the session lies in the closed interval from its
  start to its end. So a session is found under no key when no bucket holds it and under one
  key otherwise, and the sessions under all the keys together are those of the input that some
  bucket holds, each as often as in the input.
\<close>

theorem groupSessionsIntoBuckets_first_bucket:
  "groupSessionsIntoBuckets sessions dateRange
     = Inr (\<lambda>k. if k \<in> key ` set dateRange
                 then Some [s \<leftarrow> sessions. firstBucketKey s dateRange = Some k]
                 else None)
   \<and> firstBucketKey x dateRange = map_option key (find (inBucket x) dateRange)
   \<and> inBucket x dr
       = (\<exists>t a b. sessionDate x = Some t \<and> start dr = Some a \<and> finish dr = Some b
                  \<and> a \<le> t \<and> t \<le> b)
   \<and> {k. x \<in> set [s \<leftarrow> sessions. firstBucketKey s dateRange = Some k]}
       = (if x \<in> set sessions then set_option (firstBucketKey x dateRange) else {})
   \<and> (\<Sum>k\<in>key ` set dateRange. mset [s \<leftarrow> sessions. firstBucketKey s dateRange = Some k])
       = mset [s \<leftarrow> sessions. firstBucketKey s dateRange \<noteq> None]
   \<and> mset [s \<leftarrow> sessions. firstBucketKey s dateRange \<noteq> None] \<subseteq># mset sessions"
proof -
  have g: "groupSessionsIntoBuckets sessions dateRange
           = Inr (\<lambda>k. if k \<in> key ` set dateRange
                       then Some [s \<leftarrow> sessions. firstBucketKey s dateRange = Some k]
                       else None)"
    using groupLoop_eq [of dateRange "\<lambda>k. []" sessions]
    by (simp add: groupSessionsIntoBuckets_def emptyBuckets_eq cong: if_cong)
  have i: "inBucket x dr
           = (\<exists>t a b. sessionDate x = Some t \<and> start dr = Some a \<and> finish dr = Some b
                      \<and> a \<le> t \<and> t \<le> b)"
    by (auto simp: inBucket_def date_ge_def date_le_def split: option.splits)
  have o: "{k. x \<in> set [s \<leftarrow> sessions. firstBucketKey s dateRange = Some k]}
           = (if x \<in> set sessions then set_option (firstBucketKey x dateRange) else {})"
    by (cases "firstBucketKey x dateRange") auto
  have "[s \<leftarrow> sessions. firstBucketKey s dateRange \<in> Some ` key ` set dateRange]
        = [s \<leftarrow> sessions. firstBucketKey s dateRange \<noteq> None]"
    by (rule filter_cong) (auto dest: firstBucketKey_in_keys)
  then have u: "(\<Sum>k\<in>key ` set dateRange. mset [s \<leftarrow> sessions. firstBucketKey s dateRange = Some k])
                = mset [s \<leftarrow> sessions. firstBucketKey s dateRange \<noteq> None]"
    using sum_mset_filter_by_key [of "key ` set dateRange" "\<lambda>s. firstBucketKey s dateRange" sessions]
    by simp
  have m: "mset [s \<leftarrow> sessions. firstBucketKey s dateRange \<noteq> None] \<subseteq># mset sessions"
    by simp
  show ?thesis
    using g i o u m by (simp add: firstBucketKey_def)
qed
text \<open>
  The buckets of 3 and 4 March 2025 in GMT+8 and three sessions: one at the last millisecond
  of 3 March, one at the first millisecond of 4 March and one of 1970. The first is grouped
  under 3 March, the second under 4 March and the third under no key.
\<close>

theorem groupSessionsIntoBuckets_first_bucket_witness:
  "groupSessionsIntoBuckets
     [sessionAt 1741017599999, sessionAt 1741017600000, sessionAt 5]
     [\<lparr>key = ''2025-03-03'', label = ''Mon, Mar 3'',
        start = Some 1740931200000, finish = Some 1741017599999\<rparr>,
      \<lparr>key = ''2025-03-04'', label = ''Tue, Mar 4'',
        start = Some 1741017600000, finish = Some 1741103999999\<rparr>]
   = Inr [''2025-03-03'' \<mapsto> [sessionAt 1741017599999],
          ''2025-03-04'' \<mapsto> [sessionAt 1741017600000]]"
proof -
  have d: "sessionDate (sessionAt t) = (if t = 0 then Some 0 else Some t)" for t
    by (simp add: sessionDate_def sessionAt_def timestampOrCreatedAt_def isTruthy_def new_Date_def)
  show ?thesis
    using groupSessionsIntoBuckets_first_bucket
            [of "[sessionAt 1741017599999, sessionAt 1741017600000, sessionAt 5]"
                "[\<lparr>key = ''2025-03-03'', label = ''Mon, Mar 3'',
                    start = Some 1740931200000, finish = Some 1741017599999\<rparr>,
                  \<lparr>key = ''2025-03-04'', label = ''Tue, Mar 4'',
                    start = Some 1741017600000, finish = Some 1741103999999\<rparr>]"]
    by (auto simp: fun_eq_iff firstBucketKey_def inBucket_def date_ge_def date_le_def d)
qed

section \<open>Properties of the categories\<close>

lemma of_char_inj:
  "inj (of_char :: char \<Rightarrow> nat)"
  by (rule inj_on_inverseI [where g = char_of]) simp

lemma isSpace_codes:
  "isSpace c = ((of_char c :: nat) \<in> set [9, 10, 11, 12, 13, 32, 160])"
proof -
  have "(c \<in> set [CHR 0x09, CHR 0x0A, CHR 0x0B, CHR 0x0C, CHR 0x0D, CHR 0x20, CHR 0xA0])
        = ((of_char c :: nat)
             \<in> of_char ` set [CHR 0x09, CHR 0x0A, CHR 0x0B, CHR 0x0C, CHR 0x0D, CHR 0x20, CHR 0xA0])"
    using of_char_inj by (simp only: inj_image_mem_iff)
  then show ?thesis
    by (simp add: isSpace_def)
qed

lemma capitalLetters_codes:
  "(map of_char capitalLetters :: nat list) = [65..<91] @ [192..<215] @ [216..<223]"
  by (simp add: capitalLetters_def)

lemma capitalLetters_iff:
  "c \<in> set capitalLetters
   \<longleftrightarrow> (65 \<le> (of_char c :: nat) \<and> (of_char c :: nat) \<le> 90)
       \<or> (192 \<le> (of_char c :: nat) \<and> (of_char c :: nat) \<le> 214)
       \<or> (216 \<le> (of_char c :: nat) \<and> (of_char c :: nat) \<le> 222)"
proof -
  have "c \<in> set capitalLetters \<longleftrightarrow> (of_char c :: nat) \<in> of_char ` set capitalLetters"
    using of_char_inj by (simp only: inj_image_mem_iff)
  also have "\<dots> \<longleftrightarrow> (of_char c :: nat) \<in> set ([65..<91] @ [192..<215] @ [216..<223])"
    by (simp only: capitalLetters_codes [symmetric] set_map)
  also have "\<dots> \<longleftrightarrow> (65 \<le> (of_char c :: nat) \<and> (of_char c :: nat) \<le> 90)
       \<or> (192 \<le> (of_char c :: nat) \<and> (of_char c :: nat) \<le> 214)
       \<or> (216 \<le> (of_char c :: nat) \<and> (of_char c :: nat) \<le> 222)"
    by (simp only: set_append set_upt Un_iff atLeastLessThan_iff) linarith
  finally show ?thesis .
qed

lemma toLowerCase_capitalLetters:
  "toLowerCase capitalLetters = smallLetters"
  by (simp add: toLowerCase_def toLowerChar_def capitalLetters_def smallLetters_def Let_def
                char_of_eq_iff)

lemma toLowerChar_fixed:
  "(toLowerChar c = c) = (c \<notin> set capitalLetters)"
proof (cases "c \<in> set capitalLetters")
  case True
  then have r: "(65 \<le> (of_char c :: nat) \<and> (of_char c :: nat) \<le> 90)
       \<or> (192 \<le> (of_char c :: nat) \<and> (of_char c :: nat) \<le> 214)
       \<or> (216 \<le> (of_char c :: nat) \<and> (of_char c :: nat) \<le> 222)"
    using capitalLetters_iff [of c] by blast
  then have "toLowerChar c = char_of (of_char c + 32 :: nat)"
    by (auto simp: toLowerChar_def Let_def)
  then have "(of_char (toLowerChar c) :: nat) = (of_char c + 32) mod 256"
    by simp
  also have "\<dots> = of_char c + 32"
    using r by auto
  finally have "(of_char (toLowerChar c) :: nat) \<noteq> of_char c"
    by simp
  then have "toLowerChar c \<noteq> c"
    by auto
  with True show ?thesis
    by simp
next
  case False
  then have "\<not> ((65 \<le> (of_char c :: nat) \<and> (of_char c :: nat) \<le> 90)
       \<or> (192 \<le> (of_char c :: nat) \<and> (of_char c :: nat) \<le> 214)
       \<or> (216 \<le> (of_char c :: nat) \<and> (of_char c :: nat) \<le> 222))"
    using capitalLetters_iff [of c] by blast
  then have "toLowerChar c = c"
    by (auto simp: toLowerChar_def Let_def)
  with False show ?thesis
    by simp
qed

lemma isSpace_toLowerChar:
  "isSpace (toLowerChar c) = isSpace c"
proof (cases "c \<in> set capitalLetters")
  case True
  then have r: "(65 \<le> (of_char c :: nat) \<and> (of_char c :: nat) \<le> 90)
       \<or> (192 \<le> (of_char c :: nat) \<and> (of_char c :: nat) \<le> 214)
       \<or> (216 \<le> (of_char c :: nat) \<and> (of_char c :: nat) \<le> 222)"
    using capitalLetters_iff [of c] by blast
  then have "toLowerChar c = char_of (of_char c + 32 :: nat)"
    by (auto simp: toLowerChar_def Let_def)
  then have "(of_char (toLowerChar c) :: nat) = (of_char c + 32) mod 256"
    by simp
  also have "\<dots> = of_char c + 32"
    using r by auto
  finally show ?thesis
    using r by (auto simp: isSpace_codes)
next
  case False
  then show ?thesis
    using toLowerChar_fixed [of c] by simp
qed

lemma replaceSpaces_plain:
  "\<not> list_ex isSpace x \<Longrightarrow> replaceSpaces x = x"
  by (induction x) simp_all

lemma replaceSpaces_run:
  assumes "\<not> list_ex isSpace u" "sp \<noteq> []" "list_all isSpace sp" "takeWhile isSpace v = []"
  shows "replaceSpaces (u @ sp @ v) = u @ ''-'' @ replaceSpaces v"
  using assms(1)
proof (induction u)
  case Nil
  from assms(2) obtain c sp' where sp: "sp = c # sp'"
    by (cases sp) auto
  with assms(3) have c: "isSpace c" and sp': "\<And>x. x \<in> set sp' \<Longrightarrow> isSpace x"
    by (auto simp: list_all_iff)
  have "dropWhile isSpace (sp' @ v) = dropWhile isSpace v"
    using sp' by (rule dropWhile_append2)
  also have "\<dots> = v"
    using takeWhile_dropWhile_id [of isSpace v] assms(4) by simp
  finally show ?case
    using c by (simp add: sp)
next
  case (Cons a u)
  then show ?case
    by simp
qed

lemma replaceSpaces_clean:
  "\<not> list_ex isSpace (replaceSpaces x)"
proof (induction x rule: replaceSpaces.induct)
  case 1
  show ?case
    by simp
next
  case (2 c cs)
  then show ?case
    by (simp add: isSpace_def)
qed

lemma toLowerCase_spaces:
  "list_ex isSpace (toLowerCase x) = list_ex isSpace x"
  "list_all isSpace (toLowerCase x) = list_all isSpace x"
  "(takeWhile isSpace (toLowerCase x) = []) = (takeWhile isSpace x = [])"
  by (induction x) (simp_all add: toLowerCase_def isSpace_toLowerChar)

lemma normalizedCategory_labelled:
  "normalizedCategory (labelled raw) = replaceSpaces (toLowerCase raw)"
  by (simp add: normalizedCategory_def labelled_def)

lemma normalizedCategory_clean:
  "\<not> list_ex isSpace (normalizedCategory s)"
  by (simp add: normalizedCategory_def replaceSpaces_clean)

lemma normalizedCategory_no_blank:
  "normalizedCategory s \<noteq> ''category match''"
proof
  assume "normalizedCategory s = ''category match''"
  then have "list_ex isSpace (normalizedCategory s)"
    by (simp add: isSpace_def)
  then show False
    using normalizedCategory_clean by simp
qed

lemma isSessionInCategory_examples:
  "isSessionInCategory (labelled ''Category Match'') ''category-match''"
  "isSessionInCategory (labelled ''categorymatch'') ''category-match''"
  "isSessionInCategory (labelled ''category-match'') ''category-match''"
  "isSessionInCategory (labelled ''name-that-memory-people'') ''people''"
  "isSessionInCategory (labelled ''people'') ''people''"
  by (simp_all add: isSessionInCategory_def normalizedCategory_labelled toLowerCase_def
                    toLowerChar_def Let_def char_of_eq_iff isSpace_def)

text \<open>
  C8, as amended. The code has no function that maps a label to a category and no category
  \<^verbatim>\<open>other\<close>: it has the test \<^verbatim>\<open>isSessionInCategory\<close>, a total function of the session and the
  key that raises no error.

  A session passes the test for a key exactly when its normalised label is the key or the key
  after \<^verbatim>\<open>name-that-memory-\<close>; for the key \<^verbatim>\<open>category-match\<close>, exactly when it is \<^verbatim>\<open>category-match\<close>
  or \<^verbatim>\<open>categorymatch\<close> (the third spelling of the code, \<^verbatim>\<open>category match\<close>, can never be met,
  because no white space is left in a normalised label). A session passes the test for at
  most one key of the chart, and for none exactly when its normalised label is none of the 8
  spellings; a session without a category has the empty label.

  The normalised label is the label in small letters with every maximal run of white space
  replaced by one hyphen. White space is the characters with the codes 9 to 13, 32 and 160.
  The capital letters of the table become the small letters of the table and every other
  character is left alone. A label without white space is only put in small letters; in a
  label that consists of a text \<open>u\<close> without white space, a run \<open>sp\<close> of white space and a text
  \<open>v\<close> that does not begin with white space, the run becomes one hyphen between the small
  letters of \<open>u\<close> and the normalised \<open>v\<close>.

  \<^verbatim>\<open>Category Match\<close>, \<^verbatim>\<open>categorymatch\<close> and \<^verbatim>\<open>category-match\<close> pass the test for \<^verbatim>\<open>category-match\<close>;
  \<^verbatim>\<open>name-that-memory-people\<close> and \<^verbatim>\<open>people\<close> pass the test for \<^verbatim>\<open>people\<close>.
\<close>

theorem isSessionInCategory_by_spelling:
  "isSessionInCategory s catKey
     = (if catKey = ''category-match''
        then normalizedCategory s = ''category-match'' \<or> normalizedCategory s = ''categorymatch''
        else normalizedCategory s = catKey
             \<or> normalizedCategory s = ''name-that-memory-'' @ catKey)
   \<and> length (filter (isSessionInCategory s) cats) \<le> 1
   \<and> (filter (isSessionInCategory s) cats = [])
       = (normalizedCategory s
            \<notin> set [''people'', ''name-that-memory-people'',
                    ''places'', ''name-that-memory-places'',
                    ''objects'', ''name-that-memory-objects'',
                    ''category-match'', ''categorymatch''])
   \<and> normalizedCategory (s\<lparr>category := None\<rparr>) = []
   \<and> \<not> list_ex isSpace (normalizedCategory s)
   \<and> isSpace c = ((of_char c :: nat) \<in> set [9, 10, 11, 12, 13, 32, 160])
   \<and> toLowerCase capitalLetters = smallLetters
   \<and> (toLowerChar c = c) = (c \<notin> set capitalLetters)
   \<and> (\<not> list_ex isSpace raw \<longrightarrow> normalizedCategory (labelled raw) = toLowerCase raw)
   \<and> (\<not> list_ex isSpace u \<and> sp \<noteq> [] \<and> list_all isSpace sp \<and> takeWhile isSpace v = [] \<longrightarrow>
        normalizedCategory (labelled (u @ sp @ v))
          = toLowerCase u @ ''-'' @ normalizedCategory (labelled v))
   \<and> isSessionInCategory (labelled ''Category Match'') ''category-match''
   \<and> isSessionInCategory (labelled ''categorymatch'') ''category-match''
   \<and> isSessionInCategory (labelled ''category-match'') ''category-match''
   \<and> isSessionInCategory (labelled ''name-that-memory-people'') ''people''
   \<and> isSessionInCategory (labelled ''people'') ''people''"
proof -
  have a: "isSessionInCategory s k
           = (if k = ''category-match''
              then normalizedCategory s = ''category-match'' \<or> normalizedCategory s = ''categorymatch''
              else normalizedCategory s = k \<or> normalizedCategory s = ''name-that-memory-'' @ k)"
    for k
    using normalizedCategory_no_blank [of s] by (simp add: isSessionInCategory_def Let_def)
  have b: "length (filter (isSessionInCategory s) cats) \<le> 1"
    by (auto simp: a cats_def)
  have c: "(filter (isSessionInCategory s) cats = [])
           = (normalizedCategory s
                \<notin> set [''people'', ''name-that-memory-people'',
                        ''places'', ''name-that-memory-places'',
                        ''objects'', ''name-that-memory-objects'',
                        ''category-match'', ''categorymatch''])"
    by (auto simp: a cats_def)
  have d: "normalizedCategory (s\<lparr>category := None\<rparr>) = []"
    by (simp add: normalizedCategory_def toLowerCase_def)
  have e: "normalizedCategory (labelled raw) = toLowerCase raw" if "\<not> list_ex isSpace raw"
    using that by (simp add: normalizedCategory_labelled replaceSpaces_plain toLowerCase_spaces)
  have f: "normalizedCategory (labelled (u @ sp @ v))
           = toLowerCase u @ ''-'' @ normalizedCategory (labelled v)"
    if "\<not> list_ex isSpace u" "sp \<noteq> []" "list_all isSpace sp" "takeWhile isSpace v = []"
  proof -
    have "toLowerCase (u @ sp @ v) = toLowerCase u @ toLowerCase sp @ toLowerCase v"
      by (simp add: toLowerCase_def)
    moreover have "replaceSpaces (toLowerCase u @ toLowerCase sp @ toLowerCase v)
                   = toLowerCase u @ ''-'' @ replaceSpaces (toLowerCase v)"
      using that by (intro replaceSpaces_run) (simp_all add: toLowerCase_spaces, simp add: toLowerCase_def)
    ultimately show ?thesis
      by (simp only: normalizedCategory_labelled)
  qed
  show ?thesis
    using a [of catKey] b c d e f normalizedCategory_clean [of s] isSpace_codes [of c]
          toLowerCase_capitalLetters toLowerChar_fixed [of c] isSessionInCategory_examples
    by blast
qed

text \<open>
  The label \<^verbatim>\<open>Places\<close> has no white space and passes the test for \<^verbatim>\<open>places\<close>. In the label made
  of \<^verbatim>\<open>Category\<close>, of a space, a tab, a line feed and a no-break space, and of \<^verbatim>\<open>Match\<close>, the run
  of four becomes one hyphen, and the label passes the test for \<^verbatim>\<open>category-match\<close> only.
\<close>

theorem isSessionInCategory_by_spelling_witness:
  "\<not> list_ex isSpace ''Places''
   \<and> normalizedCategory (labelled ''Places'') = ''places''
   \<and> isSessionInCategory (labelled ''Places'') ''places''
   \<and> \<not> list_ex isSpace ''Category''
   \<and> [CHR 0x20, CHR 0x09, CHR 0x0A, CHR 0xA0] \<noteq> []
   \<and> list_all isSpace [CHR 0x20, CHR 0x09, CHR 0x0A, CHR 0xA0]
   \<and> takeWhile isSpace ''Match'' = []
   \<and> \<not> list_ex isSpace ''Match''
   \<and> normalizedCategory (labelled (''Category'' @ [CHR 0x20, CHR 0x09, CHR 0x0A, CHR 0xA0] @ ''Match''))
       = ''category-match''
   \<and> filter (isSessionInCategory
                (labelled (''Category'' @ [CHR 0x20, CHR 0x09, CHR 0x0A, CHR 0xA0] @ ''Match''))) cats
       = [''category-match'']"
proof -
  let ?sp = "[CHR 0x20, CHR 0x09, CHR 0x0A, CHR 0xA0]"
  let ?s = "labelled (''Category'' @ ?sp @ ''Match'')"
  have h1: "\<not> list_ex isSpace ''Places''"
    by (simp add: isSpace_def)
  have h2: "\<not> list_ex isSpace ''Category''"
    by (simp add: isSpace_def)
  have h3: "?sp \<noteq> []"
    by simp
  have h4: "list_all isSpace ?sp"
    by (simp add: isSpace_def)
  have h5: "takeWhile isSpace ''Match'' = []"
    by (simp add: isSpace_def)
  have h6: "\<not> list_ex isSpace ''Match''"
    by (simp add: isSpace_def)
  have l1: "toLowerCase ''Places'' = ''places''"
    by (simp add: toLowerCase_def toLowerChar_def Let_def char_of_eq_iff)
  have l2: "toLowerCase ''Category'' = ''category''"
    by (simp add: toLowerCase_def toLowerChar_def Let_def char_of_eq_iff)
  have l3: "toLowerCase ''Match'' = ''match''"
    by (simp add: toLowerCase_def toLowerChar_def Let_def char_of_eq_iff)
  have n1: "normalizedCategory (labelled ''Places'') = ''places''"
    using isSessionInCategory_by_spelling [of _ _ _ "''Places''"] h1 l1 by simp
  have p1: "isSessionInCategory (labelled ''Places'') ''places''"
    using isSessionInCategory_by_spelling [of "labelled ''Places''" "''places''"] n1 by simp
  have n2: "normalizedCategory (labelled ''Match'') = ''match''"
    using isSessionInCategory_by_spelling [of _ _ _ "''Match''"] h6 l3 by simp
  have n3: "normalizedCategory ?s = ''category-match''"
    using isSessionInCategory_by_spelling [of _ _ _ _ "''Category''" ?sp "''Match''"]
          h2 h3 h4 h5 l2 n2
    by simp
  have p3: "filter (isSessionInCategory ?s) cats = [''category-match'']"
    using isSessionInCategory_by_spelling [of ?s "''people''"]
          isSessionInCategory_by_spelling [of ?s "''places''"]
          isSessionInCategory_by_spelling [of ?s "''objects''"]
          isSessionInCategory_by_spelling [of ?s "''category-match''"] n3
    by (simp add: cats_def)
  from h1 n1 p1 h2 h3 h4 h5 h6 n3 p3 show ?thesis
    by blast
qed

text \<open>
  The label \<^verbatim>\<open>flowers\<close> is a spelling of no key of the chart. It does not pass the test for the
  key \<^verbatim>\<open>other\<close>, and it passes the test for no key of the chart: the session is counted in no
  series.
\<close>

theorem isSessionInCategory_other_counterexample:
  "normalizedCategory (labelled ''flowers'') = ''flowers''
   \<and> \<not> isSessionInCategory (labelled ''flowers'') ''other''
   \<and> filter (isSessionInCategory (labelled ''flowers'')) cats = []"
  by (simp add: isSessionInCategory_def normalizedCategory_labelled toLowerCase_def
                toLowerChar_def Let_def isSpace_def cats_def)

section \<open>Properties of loading\<close>

lemma filterSessionsByPeriod_Nil:
  "filterSessionsByPeriod tz now pg [] = []"
  by (simp add: filterSessionsByPeriod_def withinBuckets_def Let_def split: period.split)

lemma filterSessionsByPeriod_flags:
  "filterSessionsByPeriod tz now
     (pg\<lparr>isLoading := l, lastDataUpdate := u, isFirebaseConnected := c, dataSource := d\<rparr>) sessions
   = filterSessionsByPeriod tz now pg sessions"
  by (simp add: filterSessionsByPeriod_def split: period.split)

lemma loadProgressData_source:
  "dataSource (fst (loadProgressData tz now E ls remote pg)) = snd (snd (loadSessions E ls remote))
   \<and> isFirebaseConnected (fst (loadProgressData tz now E ls remote pg))
       = fst (snd (loadSessions E ls remote))"
  by (simp add: loadProgressData_def Let_def split: prod.splits)

text \<open>
  C3, as amended. When the remote fetch fails, the cached records are returned with the label
  \<^verbatim>\<open>Cached Data\<close> if there are any. Otherwise the records are read from the entry of the user
  in \<^verbatim>\<open>localStorage\<close> or, when that entry is absent or empty, from the shared entry
  \<^verbatim>\<open>gameRecords\<close>; a text that cannot be parsed gives no records. They are returned with the
  label \<^verbatim>\<open>Local Storage\<close>, or \<^verbatim>\<open>No Data\<close> when there are none, both of the tier Fallback. The
  page is left disconnected, and every failure is a branch that ends in a result.
\<close>

theorem loadSessions_remote_failure:
  "loadSessions E ls (Inl e)
     = (let cached = getCachedData E ls ''gameRecords'' []
        in if cached \<noteq> [] then (cached, False, ''Cached Data'')
           else
             let raw = orText (ls (localKey ls)) (orText (ls ''gameRecords'') ''[]'');
                 durable = (case JSON_parse E raw of None \<Rightarrow> [] | Some v \<Rightarrow> v)
             in (durable, False, if durable = [] then ''No Data'' else ''Local Storage''))
   \<and> tierOf (snd (snd (loadSessions E ls (Inl e))))
       = Some (if getCachedData E ls ''gameRecords'' [] \<noteq> [] then Cached else Fallback)
   \<and> dataSource (fst (loadProgressData tz now E ls (Inl e) pg))
       = snd (snd (loadSessions E ls (Inl e)))
   \<and> isFirebaseConnected (fst (loadProgressData tz now E ls (Inl e) pg)) = False"
proof -
  have a: "loadSessions E ls (Inl e)
           = (let cached = getCachedData E ls ''gameRecords'' []
              in if cached \<noteq> [] then (cached, False, ''Cached Data'')
                 else
                   let raw = orText (ls (localKey ls)) (orText (ls ''gameRecords'') ''[]'');
                       durable = (case JSON_parse E raw of None \<Rightarrow> [] | Some v \<Rightarrow> v)
                   in (durable, False, if durable = [] then ''No Data'' else ''Local Storage''))"
    by (simp add: loadSessions_def Let_def)
  have b: "tierOf (snd (snd (loadSessions E ls (Inl e))))
           = Some (if getCachedData E ls ''gameRecords'' [] \<noteq> [] then Cached else Fallback)"
    by (simp add: a Let_def tierOf_def)
  have c: "fst (snd (loadSessions E ls (Inl e))) = False"
    by (simp add: a Let_def)
  show ?thesis
    using a b c loadProgressData_source [of tz now E ls "Inl e" pg] by simp
qed

text \<open>
  The user \<^verbatim>\<open>u1\<close> with a failing remote store. With the session of 3 March in the cache, it
  is returned as cached data. With an empty cache (the user of \<^verbatim>\<open>localStorage\<close> is \<^verbatim>\<open>u2\<close>, whose
  entry holds the session of 4 March), that session is returned from the local storage.
\<close>

theorem loadSessions_remote_failure_witness:
  "loadSessions exampleEnv [''gameRecords_u1'' \<mapsto> ''[3 March]''] (Inl RemoteError)
     = ([sessionAt 1741017599999], False, ''Cached Data'')
   \<and> loadSessions exampleEnv [''userId'' \<mapsto> ''u2'', ''gameRecords_u2'' \<mapsto> ''[4 March]'']
        (Inl RemoteError)
     = ([sessionAt 1741017600000], False, ''Local Storage'')
   \<and> loadSessions exampleEnv [''userId'' \<mapsto> ''u2'', ''gameRecords_u2'' \<mapsto> ''not JSON'']
        (Inl RemoteError)
     = ([], False, ''No Data'')"
proof -
  have 1: "loadSessions exampleEnv [''gameRecords_u1'' \<mapsto> ''[3 March]''] (Inl RemoteError)
           = ([sessionAt 1741017599999], False, ''Cached Data'')"
    using loadSessions_remote_failure
            [of exampleEnv "[''gameRecords_u1'' \<mapsto> ''[3 March]'']" RemoteError 0 0 examplePage]
    by (simp add: getCachedData_def cacheUid_def orText_def exampleEnv_def exampleParse_def)
  have 2: "loadSessions exampleEnv [''userId'' \<mapsto> ''u2'', ''gameRecords_u2'' \<mapsto> ''[4 March]'']
             (Inl RemoteError)
           = ([sessionAt 1741017600000], False, ''Local Storage'')"
    using loadSessions_remote_failure
            [of exampleEnv "[''userId'' \<mapsto> ''u2'', ''gameRecords_u2'' \<mapsto> ''[4 March]'']"
                RemoteError 0 0 examplePage]
    by (simp add: getCachedData_def cacheUid_def orText_def localKey_def exampleEnv_def
                  exampleParse_def)
  have 3: "loadSessions exampleEnv [''userId'' \<mapsto> ''u2'', ''gameRecords_u2'' \<mapsto> ''not JSON'']
             (Inl RemoteError)
           = ([], False, ''No Data'')"
    using loadSessions_remote_failure
            [of exampleEnv "[''userId'' \<mapsto> ''u2'', ''gameRecords_u2'' \<mapsto> ''not JSON'']"
                RemoteError 0 0 examplePage]
    by (simp add: getCachedData_def cacheUid_def orText_def localKey_def exampleEnv_def
                  exampleParse_def)
  from 1 2 3 show ?thesis
    by simp
qed

text \<open>
  C3 as stated fails. The user \<^verbatim>\<open>u1\<close> has neither a cache nor an entry of their own in
  \<^verbatim>\<open>localStorage\<close>, and the shared entry \<^verbatim>\<open>gameRecords\<close> holds the session of 3 March. The
  durable store of the user holds no records, yet that session is returned.
\<close>

theorem loadSessions_per_user_counterexample:
  "getCachedData exampleEnv [''userId'' \<mapsto> ''u1'', ''gameRecords'' \<mapsto> ''[3 March]'']
     ''gameRecords'' [] = []
   \<and> localKey [''userId'' \<mapsto> ''u1'', ''gameRecords'' \<mapsto> ''[3 March]''] = ''gameRecords_u1''
   \<and> perUserRecords exampleEnv [''userId'' \<mapsto> ''u1'', ''gameRecords'' \<mapsto> ''[3 March]''] = []
   \<and> loadSessions exampleEnv [''userId'' \<mapsto> ''u1'', ''gameRecords'' \<mapsto> ''[3 March]'']
        (Inl RemoteError)
     = ([sessionAt 1741017599999], False, ''Local Storage'')
   \<and> fst (loadSessions exampleEnv [''userId'' \<mapsto> ''u1'', ''gameRecords'' \<mapsto> ''[3 March]'']
             (Inl RemoteError))
     \<noteq> perUserRecords exampleEnv [''userId'' \<mapsto> ''u1'', ''gameRecords'' \<mapsto> ''[3 March]'']"
  by (simp add: loadSessions_def getCachedData_def cacheUid_def orText_def localKey_def
                perUserRecords_def exampleEnv_def exampleParse_def)

lemma cacheUid_cacheData:
  "cacheUid E (cacheData E ls ''gameRecords'' data) = cacheUid E ls"
  by (simp add: cacheUid_def cacheData_def)

lemma getCachedData_cacheData:
  assumes "JSON_parse E (JSON_stringify E data) = Some data"
      and "JSON_stringify E data \<noteq> []"
  shows "getCachedData E (cacheData E ls ''gameRecords'' data) ''gameRecords'' [] = data"
  using assms
  by (simp add: getCachedData_def cacheUid_cacheData Let_def) (simp add: cacheData_def)

text \<open>
  C7, as amended. When the remote fetch succeeds the page is connected and its source is
  \<^verbatim>\<open>Firebase\<close>, of the tier Live, whatever the number of records. The fetched records are
  written to the cache when the filter of the selected period keeps at least one of them, and
  \<^verbatim>\<open>localStorage\<close> is left as it was otherwise. Once written, records that \<^verbatim>\<open>JSON\<close> can write
  and read back are what the cache returns, and a failing fetch then returns them as cached
  data.
\<close>

theorem loadProgressData_remote_success:
  "dataSource (fst (loadProgressData tz now E ls (Inr sessions) pg)) = ''Firebase''
   \<and> tierOf (dataSource (fst (loadProgressData tz now E ls (Inr sessions) pg))) = Some Live
   \<and> isFirebaseConnected (fst (loadProgressData tz now E ls (Inr sessions) pg)) = True
   \<and> snd (loadProgressData tz now E ls (Inr sessions) pg)
       = (if filterSessionsByPeriod tz now pg sessions \<noteq> []
          then cacheData E ls ''gameRecords'' sessions else ls)
   \<and> (JSON_parse E (JSON_stringify E sessions) = Some sessions
        \<and> JSON_stringify E sessions \<noteq> [] \<and> sessions \<noteq> []
       \<longrightarrow> getCachedData E (cacheData E ls ''gameRecords'' sessions) ''gameRecords'' [] = sessions
         \<and> loadSessions E (cacheData E ls ''gameRecords'' sessions) (Inl e)
             = (sessions, False, ''Cached Data''))"
proof -
  have s: "loadSessions E ls (Inr sessions) = (sessions, True, ''Firebase'')"
    by (simp add: loadSessions_def)
  have a: "dataSource (fst (loadProgressData tz now E ls (Inr sessions) pg)) = ''Firebase''"
          "isFirebaseConnected (fst (loadProgressData tz now E ls (Inr sessions) pg)) = True"
    using loadProgressData_source [of tz now E ls "Inr sessions" pg] by (simp_all add: s)
  have b: "snd (loadProgressData tz now E ls (Inr sessions) pg)
           = (if filterSessionsByPeriod tz now pg sessions \<noteq> []
              then cacheData E ls ''gameRecords'' sessions else ls)"
    by (simp add: loadProgressData_def s Let_def filterSessionsByPeriod_flags)
  have c: "getCachedData E (cacheData E ls ''gameRecords'' sessions) ''gameRecords'' [] = sessions
           \<and> loadSessions E (cacheData E ls ''gameRecords'' sessions) (Inl e)
               = (sessions, False, ''Cached Data'')"
    if "JSON_parse E (JSON_stringify E sessions) = Some sessions"
       "JSON_stringify E sessions \<noteq> []" "sessions \<noteq> []"
    using that getCachedData_cacheData [of E sessions ls]
    by (simp add: loadSessions_def Let_def)
  show ?thesis
    using a b c by (simp add: tierOf_def)
qed

text \<open>
  The user \<^verbatim>\<open>u1\<close> on 3 March 2025 at 19:06 in GMT+8: the remote store returns the session
  of that day, which is cached and then served as cached data when the remote store fails.
\<close>

theorem loadProgressData_remote_success_witness:
  "exampleParse (exampleStringify [sessionAt 1741017599999]) = Some [sessionAt 1741017599999]
   \<and> exampleStringify [sessionAt 1741017599999] \<noteq> []
   \<and> [sessionAt 1741017599999] \<noteq> []
   \<and> tierOf (dataSource (fst (loadProgressData 28800000 1741000000000 exampleEnv Map.empty
                                 (Inr [sessionAt 1741017599999]) examplePage))) = Some Live
   \<and> snd (loadProgressData 28800000 1741000000000 exampleEnv Map.empty
             (Inr [sessionAt 1741017599999]) examplePage)
       = [''gameRecords_u1'' \<mapsto> ''[3 March]'']
   \<and> loadSessions exampleEnv [''gameRecords_u1'' \<mapsto> ''[3 March]''] (Inl RemoteError)
       = ([sessionAt 1741017599999], False, ''Cached Data'')"
proof -
  have d: "sessionDate (sessionAt 1741017599999) = Some 1741017599999"
    by (simp add: sessionDate_def sessionAt_def timestampOrCreatedAt_def isTruthy_def new_Date_def)
  have f: "filterSessionsByPeriod 28800000 1741000000000 examplePage [sessionAt 1741017599999]
           = [sessionAt 1741017599999]"
    by (simp add: filterSessionsByPeriod_def withinBuckets_def examplePage_def
                  getChartDateRange_today_def todayBucket_def Let_def
                  setHours_def Day_def LocalTime_def UTC_def msPerDay_def
                  date_ge_def date_le_def d)
  have p: "exampleParse (exampleStringify [sessionAt 1741017599999]) = Some [sessionAt 1741017599999]"
    by (simp add: exampleParse_def exampleStringify_def)
  have c: "cacheData exampleEnv Map.empty ''gameRecords'' [sessionAt 1741017599999]
           = [''gameRecords_u1'' \<mapsto> ''[3 March]'']"
    by (simp add: cacheData_def cacheUid_def orText_def exampleEnv_def exampleStringify_def)
  show ?thesis
    using loadProgressData_remote_success
            [of 28800000 1741000000000 exampleEnv Map.empty "[sessionAt 1741017599999]"
                examplePage RemoteError]
          p f c
    by (simp add: exampleEnv_def examplePage_def exampleStringify_def tierOf_def)
qed

text \<open>
  C7 as stated fails. The cache of the user \<^verbatim>\<open>u1\<close> holds the session of 3 March and the remote
  store returns no records: the source is live, \<^verbatim>\<open>localStorage\<close> is left as it was, and the
  cache still returns the session of 3 March instead of the empty list that was fetched.
\<close>

theorem loadProgressData_empty_not_cached_counterexample:
  "tierOf (dataSource (fst (loadProgressData 28800000 1741000000000 exampleEnv
                              [''gameRecords_u1'' \<mapsto> ''[3 March]''] (Inr []) examplePage)))
     = Some Live
   \<and> snd (loadProgressData 28800000 1741000000000 exampleEnv
             [''gameRecords_u1'' \<mapsto> ''[3 March]''] (Inr []) examplePage)
     = [''gameRecords_u1'' \<mapsto> ''[3 March]'']
   \<and> getCachedData exampleEnv
        (snd (loadProgressData 28800000 1741000000000 exampleEnv
                [''gameRecords_u1'' \<mapsto> ''[3 March]''] (Inr []) examplePage))
        ''gameRecords'' []
     = [sessionAt 1741017599999]
   \<and> getCachedData exampleEnv
        (snd (loadProgressData 28800000 1741000000000 exampleEnv
                [''gameRecords_u1'' \<mapsto> ''[3 March]''] (Inr []) examplePage))
        ''gameRecords'' []
     \<noteq> []"
  by (simp add: loadProgressData_def loadSessions_def filterSessionsByPeriod_Nil Let_def
                tierOf_def getCachedData_def cacheUid_def orText_def exampleEnv_def
                exampleParse_def examplePage_def)

section \<open>Properties of saving\<close>

text \<open>
  C6. When the remote write fails, because nobody is signed in or because the remote store
  rejects the write, \<^verbatim>\<open>saveGameSession\<close> ends without an error and leaves \<^verbatim>\<open>localStorage\<close> as it
  was: the session is not appended to the local list.
\<close>

theorem saveGameSession_remote_failure:
  "saveGameSession E now (Some e) ls sessionData = ls
   \<and> saveGameSession (E\<lparr>currentUser := None\<rparr>) now remoteWrite ls sessionData = ls"
  by (simp add: saveGameSession_def FirebaseService_saveGameSession_def Let_def
           split: option.split)

section \<open>Properties of the fallback refresh\<close>

text \<open>
  C9. The callback of the timer runs every 3000 milliseconds, not every 30000. It reloads
  exactly when more than 30000 milliseconds have passed since the last update.
\<close>

theorem autoRefresh_every_three_seconds:
  "autoRefreshDelay = 3000
   \<and> firing t0 (Suc k) - firing t0 k = 3000
   \<and> fst (autoRefresh tz now E ls remote pg) = (now - lastDataUpdate pg > 30000)"
  by (simp add: autoRefreshDelay_def firing_def autoRefresh_def Let_def algebra_simps)

end
